theory Spec2Isabelle
  imports Main "HOL-Library.AList"
begin

section \<open>JavaScript values and exceptions\<close>

text \<open>
  The values that flow through \<^verbatim>\<open>document.js\<close>: transaction state objects, event
  payloads, node properties and the loosely typed arguments of the query functions.
  Numbers are integers here (no NaN, no fractions); functions are not values of this type,
  they are passed as HOL functions. An object is its list of own enumerable properties in
  insertion order.
\<close>

datatype jsval =
    JUndefined
  | JNull
  | JBool bool
  | JNum int
  | JStr string
  | JArr "jsval list"
  | JObj "(string \<times> jsval) list"

type_synonym jsobj = "(string \<times> jsval) list"

text \<open>The test JavaScript applies in \<^verbatim>\<open>if (v)\<close>, \<^verbatim>\<open>!v\<close> and \<^verbatim>\<open>v || w\<close>.\<close>

fun truthy :: "jsval \<Rightarrow> bool" where
  "truthy JUndefined = False"
| "truthy JNull = False"
| "truthy (JBool b) = b"
| "truthy (JNum n) = (n \<noteq> 0)"
| "truthy (JStr s) = (s \<noteq> [])"
| "truthy (JArr xs) = True"
| "truthy (JObj ps) = True"

text \<open>\<^verbatim>\<open>o[k]\<close> on an object: the value stored under \<open>k\<close>, \<^verbatim>\<open>undefined\<close> when there is none.\<close>

definition obj_get :: "jsobj \<Rightarrow> string \<Rightarrow> jsval" where
  "obj_get ob k = (case map_of ob k of None \<Rightarrow> JUndefined | Some v \<Rightarrow> v)"

text \<open>\<^verbatim>\<open>o[k] = v\<close>: replaces the value in place, or appends a new property.\<close>

definition obj_set :: "jsobj \<Rightarrow> string \<Rightarrow> jsval \<Rightarrow> jsobj" where
  "obj_set ob k v = AList.update k v ob"

text \<open>
  Exceptions. \<^verbatim>\<open>document.js\<close> throws plain \<^verbatim>\<open>Error\<close>s with a message; a property
  read on \<^verbatim>\<open>undefined\<close> or \<^verbatim>\<open>null\<close> is the engine's \<^verbatim>\<open>TypeError\<close>;
  \<open>InvalidOperation\<close> is the data store's failure.
\<close>

datatype error =
    Error string
  | TypeError string
  | InvalidOperation string

text \<open>A call either returns a value or throws.\<close>

datatype 'a outcome = Returned 'a | Thrown error

section \<open>Data store and operation primitives\<close>

text \<open>
  Modelled from the spec: the node records, the data store (\<^verbatim>\<open>../data\<close>), the four
  operation primitives and their inverses are not part of \<^verbatim>\<open>document.js\<close>. A node has
  an id, a type and properties; the store maps ids to nodes; an operation carries the state
  it captured when it was generated (create: the full node record, delete: the node record
  it removed, set: the new and the original value, update: a typed diff), which is what
  makes it invertible without consulting the store. Indices are derivable from the node
  table and are not stored.
\<close>

record node =
  node_id :: string
  node_type :: string
  properties :: jsobj

type_synonym store = "string \<Rightarrow> node option"

type_synonym path = "string \<times> string"

text \<open>
  Modelled from the spec: the typed diff of an update, a string splice, a list splice or a
  number delta. A splice names its offset, the text it removes and the text it inserts.
\<close>

datatype diff =
    StringSplice nat string string
  | ListSplice nat "jsval list" "jsval list"
  | NumberDelta int

text \<open>
  Modelled from the spec: (section 4.C) the four operations with their payload.
\<close>

datatype op =
    OpCreate node
  | OpDelete node
  | OpSet path jsval jsval
  | OpUpdate path diff

text \<open>
  Modelled from the spec: a splice at offset \<open>pos\<close> that removes \<open>removed\<close> and inserts
  \<open>inserted\<close>; out of range, or over a text other than the captured one, it is invalid.
\<close>

definition splice :: "nat \<Rightarrow> 'a list \<Rightarrow> 'a list \<Rightarrow> 'a list \<Rightarrow> 'a list option" where
  "splice pos removed inserted xs =
     (if pos + length removed \<le> length xs \<and> take (length removed) (drop pos xs) = removed
      then Some (take pos xs @ inserted @ drop (pos + length removed) xs)
      else None)"

text \<open>Modelled from the spec: a typed diff applies to a value of its own type only.\<close>

fun apply_diff :: "diff \<Rightarrow> jsval \<Rightarrow> jsval option" where
  "apply_diff (StringSplice pos removed inserted) (JStr s) =
     map_option JStr (splice pos removed inserted s)"
| "apply_diff (ListSplice pos removed inserted) (JArr xs) =
     map_option JArr (splice pos removed inserted xs)"
| "apply_diff (NumberDelta k) (JNum n) = Some (JNum (n + k))"
| "apply_diff _ _ = None"

text \<open>Modelled from the spec: (section 4.C) the inverse diff.\<close>

fun invert_diff :: "diff \<Rightarrow> diff" where
  "invert_diff (StringSplice pos removed inserted) = StringSplice pos inserted removed"
| "invert_diff (ListSplice pos removed inserted) = ListSplice pos inserted removed"
| "invert_diff (NumberDelta k) = NumberDelta (- k)"

text \<open>
  Modelled from the spec: (section 4.C) create \<open>\<leftrightarrow>\<close> delete of the captured record, set \<open>\<leftrightarrow>\<close> set
  of the original value, update \<open>\<leftrightarrow>\<close> update by the inverse diff.
\<close>

fun invert_op :: "op \<Rightarrow> op" where
  "invert_op (OpCreate n) = OpDelete n"
| "invert_op (OpDelete n) = OpCreate n"
| "invert_op (OpSet p v original) = OpSet p original v"
| "invert_op (OpUpdate p d) = OpUpdate p (invert_diff d)"

text \<open>
  Modelled from the spec: (section 4.B) \<^verbatim>\<open>data.apply(op)\<close>. Invalid input (an id that exists
  already, an unknown id or property, a captured record or value that is not the stored
  one, a diff of the wrong type or out of range) fails with \<open>InvalidOperation\<close> and leaves
  the store as it was.
\<close>

fun Data_apply :: "op \<Rightarrow> store \<Rightarrow> error + store" where
  "Data_apply (OpCreate n) s =
     (case s (node_id n) of
        Some _ \<Rightarrow> Inl (InvalidOperation ''node exists'')
      | None \<Rightarrow> Inr (s(node_id n \<mapsto> n)))"
| "Data_apply (OpDelete n) s =
     (if s (node_id n) = Some n then Inr (s(node_id n := None))
      else Inl (InvalidOperation ''unknown node''))"
| "Data_apply (OpSet (i, p) v original) s =
     (case s i of
        None \<Rightarrow> Inl (InvalidOperation ''unknown node'')
      | Some n \<Rightarrow>
          if map_of (properties n) p = Some original
          then Inr (s(i \<mapsto> n\<lparr>properties := obj_set (properties n) p v\<rparr>))
          else Inl (InvalidOperation ''unknown property''))"
| "Data_apply (OpUpdate (i, p) d) s =
     (case s i of
        None \<Rightarrow> Inl (InvalidOperation ''unknown node'')
      | Some n \<Rightarrow>
          (case map_of (properties n) p of
             None \<Rightarrow> Inl (InvalidOperation ''unknown property'')
           | Some v \<Rightarrow>
               (case apply_diff d v of
                  None \<Rightarrow> Inl (InvalidOperation ''diff does not apply'')
                | Some v' \<Rightarrow> Inr (s(i \<mapsto> n\<lparr>properties := obj_set (properties n) p v'\<rparr>)))))"

text \<open>
  \<^verbatim>\<open>_.each(ops, function(op) { data.apply(op); })\<close>: the operations are applied in
  order; an exception stops the loop and the operations applied so far stay applied.
\<close>

fun apply_each :: "op list \<Rightarrow> store \<Rightarrow> unit outcome \<times> store" where
  "apply_each [] s = (Returned (), s)"
| "apply_each (x # xs) s =
     (case Data_apply x s of
        Inl e \<Rightarrow> (Thrown e, s)
      | Inr s' \<Rightarrow> apply_each xs s')"

text \<open>
  Modelled from the spec: the mutation calls of a document (\<^verbatim>\<open>create(nodeData)\<close>,
  \<^verbatim>\<open>delete(nodeId)\<close>, \<^verbatim>\<open>set(path, value)\<close>, \<^verbatim>\<open>update(path, diff)\<close>) generate the
  operation at the moment they are applied, capturing the record or value they replace.
\<close>

definition Data_create :: "store \<Rightarrow> node \<Rightarrow> error + (op \<times> store)" where
  "Data_create s nodeData =
     (case Data_apply (OpCreate nodeData) s of
        Inl e \<Rightarrow> Inl e
      | Inr s' \<Rightarrow> Inr (OpCreate nodeData, s'))"

text \<open>Modelled from the spec: \<^verbatim>\<open>delete(nodeId)\<close> captures the record it removes.\<close>

definition Data_delete :: "store \<Rightarrow> string \<Rightarrow> error + (op \<times> store)" where
  "Data_delete s nodeId =
     (case s nodeId of
        None \<Rightarrow> Inl (InvalidOperation ''unknown node'')
      | Some n \<Rightarrow>
          (case Data_apply (OpDelete n) s of
             Inl e \<Rightarrow> Inl e
           | Inr s' \<Rightarrow> Inr (OpDelete n, s')))"

text \<open>Modelled from the spec: \<^verbatim>\<open>set(path, value)\<close> captures the value it replaces.\<close>

definition Data_set :: "store \<Rightarrow> path \<Rightarrow> jsval \<Rightarrow> error + (op \<times> store)" where
  "Data_set s p v =
     (case s (fst p) of
        None \<Rightarrow> Inl (InvalidOperation ''unknown node'')
      | Some n \<Rightarrow>
          (case map_of (properties n) (snd p) of
             None \<Rightarrow> Inl (InvalidOperation ''unknown property'')
           | Some original \<Rightarrow>
               (case Data_apply (OpSet p v original) s of
                  Inl e \<Rightarrow> Inl e
                | Inr s' \<Rightarrow> Inr (OpSet p v original, s'))))"

text \<open>Modelled from the spec: \<^verbatim>\<open>update(path, diff)\<close> carries the diff it was given.\<close>

definition Data_update :: "store \<Rightarrow> path \<Rightarrow> diff \<Rightarrow> error + (op \<times> store)" where
  "Data_update s p d =
     (case Data_apply (OpUpdate p d) s of
        Inl e \<Rightarrow> Inl e
      | Inr s' \<Rightarrow> Inr (OpUpdate p d, s'))"

section \<open>Document changes, the transaction stage and the document\<close>

text \<open>
  Modelled from the spec: (section 4.H) a change,
  \<^verbatim>\<open>new DocumentChange(ops, beforeState, afterState)\<close> (\<^verbatim>\<open>document_change.js\<close> is not
  part of the sources at hand), is an ordered list of operations plus before and after
  state. The timestamp is left out.
\<close>

record document_change =
  ops :: "op list"
  before :: jsobj
  after :: jsobj

text \<open>
  Modelled from the spec: (section 4.H) \<^verbatim>\<open>change.invert()\<close> inverts each operation, in
  reverse order. The before and after state change places, so that the inverted change
  leads from the state after to the state before.
\<close>

definition DocumentChange_invert :: "document_change \<Rightarrow> document_change" where
  "DocumentChange_invert c =
     \<lparr>ops = rev (map invert_op (ops c)), before = after c, after = before c\<rparr>"

text \<open>
  Modelled from the spec: (section 4.G) the stage (\<^verbatim>\<open>transaction_document.js\<close> is not
  part of the sources at hand) is a shadow document with a clone of the live store's data,
  the operations buffered by the running transaction and the transaction's before state.
\<close>

record transaction_document =
  tx_data :: store
  tx_ops :: "op list"
  tx_before :: jsobj

text \<open>
  What the document emits: \<^verbatim>\<open>transaction:started\<close>, and for every applied change one
  notification of the event proxies and of the \<^verbatim>\<open>document:changed\<close> listeners, with the
  change and the info object. Listeners are outside the document; the model records the
  emission and assumes that they neither throw nor call back into the document.
\<close>

datatype event =
    TransactionStarted
  | DocumentChanged document_change jsval

text \<open>
  The fields of \<^verbatim>\<open>Document\<close> that the functions below read and write. \<open>done_stack\<close> and
  \<open>undone_stack\<close> are \<^verbatim>\<open>this.done\<close> and \<^verbatim>\<open>this.undone\<close>, with the top of the stack at
  the end of the list (\<^verbatim>\<open>push\<close> appends, \<^verbatim>\<open>pop\<close> removes the last element). \<open>stage\<close> is
  \<open>None\<close> while the constructor has not yet created it. \<open>emitted\<close> and \<open>console\<close> record
  the events emitted and the lines written with \<^verbatim>\<open>console.error\<close>.
\<close>

record document =
  data :: store
  stage :: "transaction_document option"
  isTransacting :: bool
  done_stack :: "document_change list"
  undone_stack :: "document_change list"
  FORCE_TRANSACTIONS :: bool
  emitted :: "event list"
  console :: "string list"

text \<open>Sequencing of two calls: an exception of the first skips the second.\<close>

definition and_then ::
  "'a outcome \<times> document \<Rightarrow> ('a \<Rightarrow> document \<Rightarrow> 'b outcome \<times> document) \<Rightarrow> 'b outcome \<times> document" where
  "and_then r f = (case r of (Thrown e, d) \<Rightarrow> (Thrown e, d) | (Returned x, d) \<Rightarrow> f x d)"

text \<open>\<^verbatim>\<open>try { body } finally { cleanup }\<close>: an exception of the cleanup replaces the outcome.\<close>

definition try_finally ::
  "'a outcome \<times> document \<Rightarrow> (document \<Rightarrow> unit outcome \<times> document) \<Rightarrow> 'a outcome \<times> document" where
  "try_finally r cleanup =
     (case cleanup (snd r) of
        (Thrown e, d) \<Rightarrow> (Thrown e, d)
      | (Returned _, d) \<Rightarrow> (fst r, d))"

subsection \<open>The stage's and the base document's mutations\<close>

text \<open>
  Modelled from the spec: (section 4.G) a mutation of the stage is applied to the stage's
  store; the operation is buffered while a transaction is active and not otherwise
  (operations outside a transaction are mirrored, not recorded).
\<close>

definition stage_mutate ::
  "document \<Rightarrow> (store \<Rightarrow> error + (op \<times> store)) \<Rightarrow> unit outcome \<times> document" where
  "stage_mutate d f =
     (case stage d of
        None \<Rightarrow> (Thrown (TypeError ''Cannot read property of undefined''), d)
      | Some tx \<Rightarrow>
          (case f (tx_data tx) of
             Inl e \<Rightarrow> (Thrown e, d)
           | Inr (x, s') \<Rightarrow>
               (Returned (),
                d\<lparr>stage := Some (tx\<lparr>tx_data := s',
                     tx_ops := (if isTransacting d then tx_ops tx @ [x] else tx_ops tx)\<rparr>)\<rparr>)))"

text \<open>Modelled from the spec: \<^verbatim>\<open>tx.create(nodeData)\<close>.\<close>

definition TransactionDocument_create :: "document \<Rightarrow> node \<Rightarrow> unit outcome \<times> document" where
  "TransactionDocument_create d nodeData = stage_mutate d (\<lambda>s. Data_create s nodeData)"

text \<open>Modelled from the spec: \<^verbatim>\<open>tx.delete(nodeId)\<close>.\<close>

definition TransactionDocument_delete :: "document \<Rightarrow> string \<Rightarrow> unit outcome \<times> document" where
  "TransactionDocument_delete d nodeId = stage_mutate d (\<lambda>s. Data_delete s nodeId)"

text \<open>Modelled from the spec: \<^verbatim>\<open>tx.set(path, value)\<close>.\<close>

definition TransactionDocument_set :: "document \<Rightarrow> path \<Rightarrow> jsval \<Rightarrow> unit outcome \<times> document" where
  "TransactionDocument_set d p v = stage_mutate d (\<lambda>s. Data_set s p v)"

text \<open>Modelled from the spec: \<^verbatim>\<open>tx.update(path, diff)\<close>.\<close>

definition TransactionDocument_update :: "document \<Rightarrow> path \<Rightarrow> diff \<Rightarrow> unit outcome \<times> document" where
  "TransactionDocument_update d p df = stage_mutate d (\<lambda>s. Data_update s p df)"

text \<open>
  Modelled from the spec: \<^verbatim>\<open>this._create\<close>, \<^verbatim>\<open>this._delete\<close>, \<^verbatim>\<open>this._set\<close> and
  \<^verbatim>\<open>this._update\<close> of the base document (\<^verbatim>\<open>abstract_document.js\<close> is not part of the
  sources at hand) apply the mutation to the live store.
\<close>

definition live_mutate ::
  "document \<Rightarrow> (store \<Rightarrow> error + (op \<times> store)) \<Rightarrow> unit outcome \<times> document" where
  "live_mutate d f =
     (case f (data d) of
        Inl e \<Rightarrow> (Thrown e, d)
      | Inr (x, s') \<Rightarrow> (Returned (), d\<lparr>data := s'\<rparr>))"

text \<open>Modelled from the spec: \<^verbatim>\<open>this._create(nodeData)\<close>.\<close>

definition AbstractDocument_create :: "document \<Rightarrow> node \<Rightarrow> unit outcome \<times> document" where
  "AbstractDocument_create d nodeData = live_mutate d (\<lambda>s. Data_create s nodeData)"

text \<open>Modelled from the spec: \<^verbatim>\<open>this._delete(nodeId)\<close>.\<close>

definition AbstractDocument_delete :: "document \<Rightarrow> string \<Rightarrow> unit outcome \<times> document" where
  "AbstractDocument_delete d nodeId = live_mutate d (\<lambda>s. Data_delete s nodeId)"

text \<open>Modelled from the spec: \<^verbatim>\<open>this._set(path, value)\<close>.\<close>

definition AbstractDocument_set :: "document \<Rightarrow> path \<Rightarrow> jsval \<Rightarrow> unit outcome \<times> document" where
  "AbstractDocument_set d p v = live_mutate d (\<lambda>s. Data_set s p v)"

text \<open>Modelled from the spec: \<^verbatim>\<open>this._update(path, diff)\<close>.\<close>

definition AbstractDocument_update :: "document \<Rightarrow> path \<Rightarrow> diff \<Rightarrow> unit outcome \<times> document" where
  "AbstractDocument_update d p df = live_mutate d (\<lambda>s. Data_update s p df)"

text \<open>
  Modelled from the spec: \<^verbatim>\<open>stage.apply(documentChange)\<close> replays the operations of a
  change on the stage's store, one after the other.
\<close>

definition TransactionDocument_apply :: "document \<Rightarrow> document_change \<Rightarrow> unit outcome \<times> document" where
  "TransactionDocument_apply d documentChange =
     (case stage d of
        None \<Rightarrow> (Thrown (TypeError ''Cannot read property of undefined''), d)
      | Some tx \<Rightarrow>
          (case apply_each (ops documentChange) (tx_data tx) of
             (r, s') \<Rightarrow> (r, d\<lparr>stage := Some (tx\<lparr>tx_data := s'\<rparr>)\<rparr>)))"

text \<open>
  Modelled from the spec: \<^verbatim>\<open>stage.reset()\<close> drops the buffered operations and the before
  state. The stage's store is kept: it is already at the new state.
\<close>

definition TransactionDocument_reset :: "transaction_document \<Rightarrow> transaction_document" where
  "TransactionDocument_reset tx = tx\<lparr>tx_ops := [], tx_before := []\<rparr>"

subsection \<open>\<^verbatim>\<open>document.js\<close>\<close>

text \<open>
  The constructor. \<^verbatim>\<open>initialize()\<close> (of the base document or of a subclass) runs before
  the stage exists and before \<^verbatim>\<open>isTransacting\<close> and \<^verbatim>\<open>FORCE_TRANSACTIONS\<close> are
  assigned; read as conditions they are \<^verbatim>\<open>undefined\<close>, that is false. The stage is then
  created as a clone of the document.
\<close>

definition Document_constructor ::
  "(document \<Rightarrow> unit outcome \<times> document) \<Rightarrow> unit outcome \<times> document" where
  "Document_constructor initialize =
     and_then
       (initialize \<lparr>data = Map.empty, stage = None, isTransacting = False, done_stack = [],
                    undone_stack = [], FORCE_TRANSACTIONS = False, emitted = [], console = []\<rparr>)
       (\<lambda>_ d. (Returned (),
          d\<lparr>stage := Some \<lparr>tx_data = data d, tx_ops = [], tx_before = []\<rparr>,
            isTransacting := False, FORCE_TRANSACTIONS := False\<rparr>))"

text \<open>\<^verbatim>\<open>documentDidLoad()\<close>: resets the stage and empties \<open>done\<close>.\<close>

definition Document_documentDidLoad :: "document \<Rightarrow> unit outcome \<times> document" where
  "Document_documentDidLoad d =
     (case stage d of
        None \<Rightarrow> (Thrown (TypeError ''Cannot read property of undefined''), d)
      | Some tx \<Rightarrow> (Returned (), d\<lparr>stage := Some (TransactionDocument_reset tx), done_stack := []\<rparr>))"

text \<open>
  \<^verbatim>\<open>startTransaction(beforeState)\<close>. The before state is an object or missing
  (\<^verbatim>\<open>beforeState || {}\<close>). The flag is set before the stage is touched.
\<close>

definition Document_startTransaction :: "document \<Rightarrow> jsobj option \<Rightarrow> unit outcome \<times> document" where
  "Document_startTransaction d beforeState =
     (if isTransacting d then (Thrown (Error ''Nested transactions are not supported.''), d)
      else
        (case stage d of
           None \<Rightarrow> (Thrown (TypeError ''Cannot set property of undefined''), d\<lparr>isTransacting := True\<rparr>)
         | Some tx \<Rightarrow>
             (Returned (),
              d\<lparr>isTransacting := True,
                stage := Some (tx\<lparr>tx_before := (case beforeState of None \<Rightarrow> [] | Some b \<Rightarrow> b)\<rparr>),
                emitted := emitted d @ [TransactionStarted]\<rparr>)))"

text \<open>
  \<^verbatim>\<open>create(nodeData)\<close>, \<^verbatim>\<open>delete(nodeId)\<close>, \<^verbatim>\<open>set(path, value)\<close> and
  \<^verbatim>\<open>update(path, diff)\<close>: refused in force-transactions mode; inside a transaction they
  go to the stage only; outside they go to the stage, if there is one, and to the live
  store (\<^verbatim>\<open>update\<close>: to the live store first). \<^verbatim>\<open>create\<close> returns what the live store
  holds under the new id.
\<close>

definition Document_create :: "document \<Rightarrow> node \<Rightarrow> node option outcome \<times> document" where
  "Document_create d nodeData =
     (if FORCE_TRANSACTIONS d then (Thrown (Error ''Use a transaction!''), d)
      else if isTransacting d then
        and_then (TransactionDocument_create d nodeData)
          (\<lambda>_ d1. (Returned (data d1 (node_id nodeData)), d1))
      else
        and_then (if stage d \<noteq> None then TransactionDocument_create d nodeData else (Returned (), d))
          (\<lambda>_ d1. and_then (AbstractDocument_create d1 nodeData)
             (\<lambda>_ d2. (Returned (data d2 (node_id nodeData)), d2))))"

definition Document_delete :: "document \<Rightarrow> string \<Rightarrow> unit outcome \<times> document" where
  "Document_delete d nodeId =
     (if FORCE_TRANSACTIONS d then (Thrown (Error ''Use a transaction!''), d)
      else if isTransacting d then TransactionDocument_delete d nodeId
      else
        and_then (if stage d \<noteq> None then TransactionDocument_delete d nodeId else (Returned (), d))
          (\<lambda>_ d1. AbstractDocument_delete d1 nodeId))"

definition Document_set :: "document \<Rightarrow> path \<Rightarrow> jsval \<Rightarrow> unit outcome \<times> document" where
  "Document_set d p v =
     (if FORCE_TRANSACTIONS d then (Thrown (Error ''Use a transaction!''), d)
      else if isTransacting d then TransactionDocument_set d p v
      else
        and_then (if stage d \<noteq> None then TransactionDocument_set d p v else (Returned (), d))
          (\<lambda>_ d1. AbstractDocument_set d1 p v))"

definition Document_update :: "document \<Rightarrow> path \<Rightarrow> diff \<Rightarrow> unit outcome \<times> document" where
  "Document_update d p df =
     (if FORCE_TRANSACTIONS d then (Thrown (Error ''Use a transaction!''), d)
      else if isTransacting d then TransactionDocument_update d p df
      else
        and_then (AbstractDocument_update d p df)
          (\<lambda>_ d1. if stage d1 \<noteq> None then TransactionDocument_update d1 p df else (Returned (), d1)))"

text \<open>\<^verbatim>\<open>_notifyChangeListeners(documentChange, info)\<close>, with \<^verbatim>\<open>info || {}\<close>.\<close>

definition Document_notifyChangeListeners ::
  "document \<Rightarrow> document_change \<Rightarrow> jsval \<Rightarrow> unit outcome \<times> document" where
  "Document_notifyChangeListeners d documentChange info =
     (Returned (),
      d\<lparr>emitted := emitted d @
          [DocumentChanged documentChange (if truthy info then info else JObj [])]\<rparr>)"

text \<open>
  \<^verbatim>\<open>_apply(documentChange, mode)\<close>. \<^verbatim>\<open>_updateContainers(op)\<close> maintains the container
  index, which is derived from the store and not modelled.
\<close>

definition Document_apply :: "document \<Rightarrow> document_change \<Rightarrow> jsval \<Rightarrow> unit outcome \<times> document" where
  "Document_apply d documentChange mode =
     (if isTransacting d
      then (Thrown (Error ''Can not replay a document change during transaction.''), d)
      else
        and_then
          (if mode \<noteq> JStr ''skipStage'' then TransactionDocument_apply d documentChange
           else (Returned (), d))
          (\<lambda>_ d1. case apply_each (ops documentChange) (data d1) of
                     (r, s') \<Rightarrow> (r, d1\<lparr>data := s'\<rparr>)))"

text \<open>
  \<^verbatim>\<open>_saveTransaction(beforeState, afterState, info)\<close>: leaves the transaction, wraps the
  buffered operations in a change, applies it to the live store only, pushes it onto
  \<open>done\<close>, empties \<open>undone\<close> and notifies the listeners.
\<close>

definition Document_saveTransaction ::
  "document \<Rightarrow> jsobj \<Rightarrow> jsobj \<Rightarrow> jsval \<Rightarrow> unit outcome \<times> document" where
  "Document_saveTransaction d beforeState afterState info =
     (if \<not> isTransacting d then (Thrown (Error ''Not in a transaction.''), d)
      else
        (let d1 = d\<lparr>isTransacting := False\<rparr> in
         case stage d1 of
           None \<Rightarrow> (Thrown (TypeError ''Cannot read property of undefined''), d1)
         | Some tx \<Rightarrow>
             (let documentChange = \<lparr>ops = tx_ops tx, before = beforeState, after = afterState\<rparr> in
              and_then (Document_apply d1 documentChange (JStr ''skipStage''))
                (\<lambda>_ d2. Document_notifyChangeListeners
                           (d2\<lparr>done_stack := done_stack d2 @ [documentChange], undone_stack := []\<rparr>)
                           documentChange info))))"

text \<open>\<^verbatim>\<open>_cancelTransaction()\<close>.\<close>

definition Document_cancelTransaction :: "document \<Rightarrow> unit outcome \<times> document" where
  "Document_cancelTransaction d =
     (if \<not> isTransacting d then (Thrown (Error ''Not in a transaction.''), d)
      else (Returned (), d\<lparr>isTransacting := False\<rparr>))"

text \<open>
  \<^verbatim>\<open>undo()\<close> and \<^verbatim>\<open>redo()\<close>: \<^verbatim>\<open>pop\<close> gives \<^verbatim>\<open>undefined\<close> on an empty stack, and
  the else branch writes to \<^verbatim>\<open>console.error\<close>. The change has left its stack before it
  is applied.
\<close>

definition Document_undo :: "document \<Rightarrow> unit outcome \<times> document" where
  "Document_undo d =
     (case rev (done_stack d) of
        [] \<Rightarrow> (Returned (), d\<lparr>console := console d @ [''No change can be undone.'']\<rparr>)
      | change # _ \<Rightarrow>
          (let inverted = DocumentChange_invert change in
           and_then (Document_apply (d\<lparr>done_stack := butlast (done_stack d)\<rparr>) inverted JUndefined)
             (\<lambda>_ d1. Document_notifyChangeListeners
                        (d1\<lparr>undone_stack := undone_stack d1 @ [inverted]\<rparr>)
                        inverted (JObj [(''replay'', JBool True)]))))"

definition Document_redo :: "document \<Rightarrow> unit outcome \<times> document" where
  "Document_redo d =
     (case rev (undone_stack d) of
        [] \<Rightarrow> (Returned (), d\<lparr>console := console d @ [''No change can be redone.'']\<rparr>)
      | change # _ \<Rightarrow>
          (let inverted = DocumentChange_invert change in
           and_then (Document_apply (d\<lparr>undone_stack := butlast (undone_stack d)\<rparr>) inverted JUndefined)
             (\<lambda>_ d1. Document_notifyChangeListeners
                        (d1\<lparr>done_stack := done_stack d1 @ [inverted]\<rparr>)
                        inverted (JObj [(''replay'', JBool True)]))))"

subsection \<open>Commit, cancel and the \<^verbatim>\<open>transaction\<close> wrapper\<close>

text \<open>
  Modelled from the spec: (section 4.G) \<^verbatim>\<open>tx.save(afterState, info)\<close> commits through the
  document's \<^verbatim>\<open>_saveTransaction\<close> with the stage's before state and then empties the
  buffer; the stage's store is not replayed, it is already at the new state.
\<close>

definition TransactionDocument_save :: "document \<Rightarrow> jsobj \<Rightarrow> jsval \<Rightarrow> unit outcome \<times> document" where
  "TransactionDocument_save d afterState info =
     (case stage d of
        None \<Rightarrow> (Thrown (TypeError ''Cannot read property of undefined''), d)
      | Some tx \<Rightarrow>
          and_then (Document_saveTransaction d (tx_before tx) afterState info)
            (\<lambda>_ d1. (Returned (), d1\<lparr>stage := map_option TransactionDocument_reset (stage d1)\<rparr>)))"

text \<open>
  Modelled from the spec: (section 4.G) \<^verbatim>\<open>tx.cancel()\<close> reverts the stage by applying the inverse
  of each buffered operation in reverse order, leaves the transaction through the
  document's \<^verbatim>\<open>_cancelTransaction\<close> and empties the buffer.
\<close>

definition TransactionDocument_cancel :: "document \<Rightarrow> unit outcome \<times> document" where
  "TransactionDocument_cancel d =
     (case stage d of
        None \<Rightarrow> (Thrown (TypeError ''Cannot read property of undefined''), d)
      | Some tx \<Rightarrow>
          (case apply_each (rev (map invert_op (tx_ops tx))) (tx_data tx) of
             (Thrown e, s') \<Rightarrow> (Thrown e, d\<lparr>stage := Some (tx\<lparr>tx_data := s'\<rparr>)\<rparr>)
           | (Returned _, s') \<Rightarrow>
               and_then (Document_cancelTransaction (d\<lparr>stage := Some (tx\<lparr>tx_data := s'\<rparr>)\<rparr>))
                 (\<lambda>_ d1. (Returned (),
                    d1\<lparr>stage := map_option TransactionDocument_reset (stage d1)\<rparr>))))"

text \<open>
  Modelled from the spec: (section 5) \<^verbatim>\<open>tx.finish()\<close> closes the transaction; one that is still
  active (neither saved nor cancelled, for instance after an exception) is cancelled.
\<close>

definition TransactionDocument_finish :: "document \<Rightarrow> unit outcome \<times> document" where
  "TransactionDocument_finish d =
     (if isTransacting d then TransactionDocument_cancel d else (Returned (), d))"

text \<open>
  A transformation receives the stage; the stage is a member of the document, so in the
  model the transformation runs on the document. It returns an object or nothing
  (\<^verbatim>\<open>undefined\<close>, here \<open>None\<close>).
\<close>

type_synonym transformation = "document \<Rightarrow> jsobj option outcome \<times> document"

text \<open>
  The three ways of calling \<^verbatim>\<open>transaction\<close>, by \<^verbatim>\<open>arguments.length\<close>. The last
  argument is \<open>None\<close> when it is not a function.
\<close>

datatype transaction_arguments =
    Args1 "transformation option"
  | Args2 "jsobj option" "transformation option"
  | Args3 "jsobj option" jsval "transformation option"

fun arg_beforeState :: "transaction_arguments \<Rightarrow> jsobj option" where
  "arg_beforeState (Args1 t) = Some []"
| "arg_beforeState (Args2 b t) = b"
| "arg_beforeState (Args3 b e t) = b"

fun arg_eventData :: "transaction_arguments \<Rightarrow> jsval" where
  "arg_eventData (Args1 t) = JObj []"
| "arg_eventData (Args2 b t) = JObj []"
| "arg_eventData (Args3 b e t) = (if truthy e then e else JObj [])"

fun arg_transformation :: "transaction_arguments \<Rightarrow> transformation option" where
  "arg_transformation (Args1 t) = t"
| "arg_transformation (Args2 b t) = t"
| "arg_transformation (Args3 b e t) = t"

text \<open>
  The loop \<^verbatim>\<open>for (var key in beforeState)\<close> that builds \<^verbatim>\<open>afterState\<close>. Reading
  \<^verbatim>\<open>result[key]\<close> throws when the transformation returned nothing.
\<close>

fun afterState_loop :: "string list \<Rightarrow> jsobj \<Rightarrow> jsobj option \<Rightarrow> jsobj \<Rightarrow> error + jsobj" where
  "afterState_loop [] beforeState result afterState = Inr afterState"
| "afterState_loop (key # keys) beforeState result afterState =
     (case result of
        None \<Rightarrow> Inl (TypeError ''Cannot read property of undefined'')
      | Some r \<Rightarrow>
          afterState_loop keys beforeState result
            (if truthy (obj_get r key) then obj_set afterState key (obj_get r key)
             else obj_set afterState key (obj_get beforeState key)))"

definition transaction_afterState :: "jsobj option \<Rightarrow> jsobj option \<Rightarrow> error + jsobj" where
  "transaction_afterState beforeState result =
     (case beforeState of
        None \<Rightarrow> Inr []
      | Some b \<Rightarrow> afterState_loop (map fst b) b result [])"

text \<open>
  \<^verbatim>\<open>transaction(beforeState, eventData, transformation)\<close>. \<^verbatim>\<open>_.clone\<close> is a shallow
  copy, the identity on the values of the model. \<^verbatim>\<open>startTransaction\<close> is called before
  the \<^verbatim>\<open>try\<close>: when it throws, \<^verbatim>\<open>tx.finish()\<close> does not run.
\<close>

definition Document_transaction :: "document \<Rightarrow> transaction_arguments \<Rightarrow> unit outcome \<times> document" where
  "Document_transaction d args =
     (case arg_transformation args of
        None \<Rightarrow> (Thrown (Error ''Document.transaction() requires a transformation function.''), d)
      | Some transformation \<Rightarrow>
          and_then (Document_startTransaction d (arg_beforeState args))
            (\<lambda>_ tx.
               try_finally
                 (and_then (transformation tx)
                    (\<lambda>result d1.
                       (case transaction_afterState (arg_beforeState args) result of
                          Inl e \<Rightarrow> (Thrown e, d1)
                        | Inr afterState \<Rightarrow>
                            if isTransacting d1
                            then TransactionDocument_save d1 afterState (arg_eventData args)
                            else (Returned (), d1))))
                 TransactionDocument_finish))"

subsection \<open>Loading a snapshot\<close>

text \<open>A snapshot: the nodes to create (the schema name and version play no role here).\<close>

record snapshot =
  nodes :: "node list"

text \<open>
  Modelled from the spec: \<^verbatim>\<open>tx.loadSeed(seed)\<close> creates the nodes of the snapshot on the
  stage, in order.
\<close>

fun create_all :: "node list \<Rightarrow> document \<Rightarrow> unit outcome \<times> document" where
  "create_all [] d = (Returned (), d)"
| "create_all (n # ns) d = and_then (TransactionDocument_create d n) (\<lambda>_ d1. create_all ns d1)"

text \<open>Modelled from the spec: \<^verbatim>\<open>tx.loadSeed(seed)\<close>, the loop above over the snapshot's nodes.\<close>

definition TransactionDocument_loadSeed :: "document \<Rightarrow> snapshot \<Rightarrow> unit outcome \<times> document" where
  "TransactionDocument_loadSeed d seed = create_all (nodes seed) d"

definition Document_loadSeed :: "document \<Rightarrow> snapshot \<Rightarrow> unit outcome \<times> document" where
  "Document_loadSeed d seed =
     Document_transaction d
       (Args1 (Some (\<lambda>tx. and_then (TransactionDocument_loadSeed tx seed)
                             (\<lambda>_ d1. (Returned None, d1)))))"

text \<open>
  \<^verbatim>\<open>fromSnapshot(data)\<close>: a new instance, then \<^verbatim>\<open>loadSeed\<close>. The new instance is a plain
  \<^verbatim>\<open>Document\<close>; \<open>initialize\<close> is the base document's initialisation.
\<close>

definition Document_fromSnapshot ::
  "(document \<Rightarrow> unit outcome \<times> document) \<Rightarrow> snapshot \<Rightarrow> unit outcome \<times> document" where
  "Document_fromSnapshot initialize seed =
     and_then (Document_constructor initialize) (\<lambda>_ doc. Document_loadSeed doc seed)"

subsection \<open>Annotation queries\<close>

text \<open>
  Modelled from the spec: (section 4.K) a selection is a property selection, a container selection
  or the null selection (the selection classes are not part of the sources at hand).
\<close>

datatype selection =
    PropertySelection path nat nat bool
  | ContainerSelection string path nat path nat bool
  | NullSelection

text \<open>Modelled from the spec: (section 4.K) \<^verbatim>\<open>sel.isPropertySelection()\<close>.\<close>

fun isPropertySelection :: "selection \<Rightarrow> bool" where
  "isPropertySelection (PropertySelection p s e r) = True"
| "isPropertySelection _ = False"

text \<open>\<^verbatim>\<open>options.type\<close>: a \<^verbatim>\<open>TypeError\<close> on \<^verbatim>\<open>undefined\<close> and \<^verbatim>\<open>null\<close>.\<close>

fun options_type :: "jsval \<Rightarrow> error + jsval" where
  "options_type JUndefined = Inl (TypeError ''Cannot read property type of undefined'')"
| "options_type JNull = Inl (TypeError ''Cannot read property type of null'')"
| "options_type (JObj ps) = Inr (obj_get ps ''type'')"
| "options_type _ = Inr JUndefined"

text \<open>
  \<^verbatim>\<open>getAnnotationsForSelection(sel, options)\<close>. The annotation index and
  \<^verbatim>\<open>AnnotationIndex.filterByType\<close> are parameters. Next to the annotations the function
  returns the queries it sent to the index, so that consulting the index is visible.
\<close>

definition Document_getAnnotationsForSelection ::
  "(path \<Rightarrow> nat \<Rightarrow> nat \<Rightarrow> 'a list) \<Rightarrow> (jsval \<Rightarrow> 'a \<Rightarrow> bool) \<Rightarrow> selection \<Rightarrow> jsval
     \<Rightarrow> 'a list outcome \<times> (path \<times> nat \<times> nat) list" where
  "Document_getAnnotationsForSelection annotationIndex_get filterByType sel options =
     (let options1 = (if truthy options then options else JObj []) in
      case sel of
        PropertySelection p startOffset endOffset r \<Rightarrow>
          (let annotations = annotationIndex_get p startOffset endOffset;
               queries = [(p, startOffset, endOffset)] in
           case options_type options1 of
             Inl e \<Rightarrow> (Thrown e, queries)
           | Inr t \<Rightarrow>
               (Returned (if truthy t then filter (filterByType t) annotations else annotations),
                queries))
      | _ \<Rightarrow> (Returned [], []))"

text \<open>
  \<^verbatim>\<open>getContainerAnnotationsForSelection(sel, container, options)\<close>. The type index, the
  container annotations by id and the overlap test of a selection with an annotation's
  selection are parameters.
\<close>

definition Document_getContainerAnnotationsForSelection ::
  "(jsval \<Rightarrow> 'a list) \<Rightarrow> 'a list \<Rightarrow> ('s \<Rightarrow> 'a \<Rightarrow> bool) \<Rightarrow> 's \<Rightarrow> jsval \<Rightarrow> jsval \<Rightarrow> 'a list outcome" where
  "Document_getContainerAnnotationsForSelection typeIndex_get byId overlaps sel container options =
     (if \<not> truthy container then Returned []
      else
        (case options_type options of
           Inl e \<Rightarrow> Thrown e
         | Inr t \<Rightarrow>
             Returned (filter (overlaps sel) (if truthy t then typeIndex_get t else byId))))"

section \<open>Invariants and example documents\<close>

text \<open>
  The mirror invariant: outside an active transaction the stage's store and the live store
  hold the same data. While the constructor has not created the stage there is nothing to
  compare.
\<close>

definition mirrored :: "document \<Rightarrow> bool" where
  "mirrored d =
     (case stage d of
        None \<Rightarrow> True
      | Some tx \<Rightarrow> isTransacting d \<or> tx_data tx = data d)"

text \<open>
  A mutation \<open>f\<close> of the store applied to both stores of a document: force-transactions
  mode refuses the call; otherwise the call throws exactly when the live store rejects
  \<open>f\<close>, with the store's error, and the document is as before; and when the store
  accepts \<open>f\<close>, the call returns (\<open>ret\<close> of the new store), the new store is the data of
  the live store and of the stage (if there is one), and nothing else has changed; in
  particular the stage has buffered nothing.
\<close>

definition in_both_stores ::
  "document \<Rightarrow> (store \<Rightarrow> error + (op \<times> store)) \<Rightarrow> (store \<Rightarrow> 'a) \<Rightarrow> 'a outcome \<times> document" where
  "in_both_stores d f ret =
     (if FORCE_TRANSACTIONS d then (Thrown (Error ''Use a transaction!''), d)
      else
        (case f (data d) of
           Inl e \<Rightarrow> (Thrown e, d)
         | Inr (x, s') \<Rightarrow>
             (Returned (ret s'),
              d\<lparr>data := s', stage := map_option (\<lambda>tx. tx\<lparr>tx_data := s'\<rparr>) (stage d)\<rparr>)))"

text \<open>What the stage's store holds under an id (nothing while there is no stage).\<close>

definition stage_node :: "document \<Rightarrow> string \<Rightarrow> node option" where
  "stage_node d nodeId = (case stage d of None \<Rightarrow> None | Some tx \<Rightarrow> tx_data tx nodeId)"

text \<open>
  The stage is ahead of the live store by exactly its buffered operations: replaying the
  buffer on the live store succeeds and gives the stage's store.
\<close>

definition staged :: "document \<Rightarrow> bool" where
  "staged d =
     (case stage d of
        None \<Rightarrow> False
      | Some tx \<Rightarrow> apply_each (tx_ops tx) (data d) = (Returned (), tx_data tx))"

text \<open>A document at rest: no transaction, an empty buffer, and the stage mirrors the store.\<close>

definition idle :: "document \<Rightarrow> bool" where
  "idle d =
     (case stage d of
        None \<Rightarrow> False
      | Some tx \<Rightarrow> \<not> isTransacting d \<and> tx_ops tx = [] \<and> tx_data tx = data d)"

text \<open>
  The state a document is in at any moment: during a transaction the stage is ahead by its
  buffer, otherwise the document is at rest.
\<close>

definition consistent :: "document \<Rightarrow> bool" where
  "consistent d = (if isTransacting d then staged d else idle d)"

text \<open>
  The documents that arise from a constructed document by calls of the interface: the four
  mutations of the document (inside or outside a transaction), switching force-transactions
  mode, \<^verbatim>\<open>startTransaction\<close>, the four mutations of the stage while a transaction is
  active (the stage is what the transformation works on), \<^verbatim>\<open>tx.save\<close>, \<^verbatim>\<open>tx.cancel\<close>
  (which is also what \<^verbatim>\<open>tx.finish\<close> does to an open transaction), \<^verbatim>\<open>loadSeed\<close>,
  \<^verbatim>\<open>documentDidLoad\<close>, \<^verbatim>\<open>undo\<close> and \<^verbatim>\<open>redo\<close>. A call that throws leaves the document
  it has reached, and that document is followed further. Two kinds of call are left out,
  because the mirror does not survive them (\<open>refilled_document\<close> and \<open>reloaded_document\<close>
  below are the examples):

    \<^item> an \<^verbatim>\<open>undo\<close> or \<^verbatim>\<open>redo\<close> outside a transaction that throws. \<^verbatim>\<open>_apply\<close> replays
      the change on the stage first and on the live store afterwards, operation by
      operation and with nothing that rolls back, so a replay that fails midway leaves the
      two stores apart. (Inside a transaction \<^verbatim>\<open>_apply\<close> throws before it touches a
      store; these calls are followed.)

    \<^item> \<^verbatim>\<open>documentDidLoad\<close> inside a transaction: it drops the stage's buffer while the
      stage's store is ahead of the live store by that buffer.
\<close>

inductive reachable :: "document \<Rightarrow> bool" where
  constructed: "Document_constructor initialize = (Returned (), d) \<Longrightarrow> reachable d"
| created: "reachable d \<Longrightarrow> reachable (snd (Document_create d nodeData))"
| deleted: "reachable d \<Longrightarrow> reachable (snd (Document_delete d nodeId))"
| was_set: "reachable d \<Longrightarrow> reachable (snd (Document_set d p v))"
| updated: "reachable d \<Longrightarrow> reachable (snd (Document_update d p df))"
| forced: "reachable d \<Longrightarrow> reachable (d\<lparr>FORCE_TRANSACTIONS := b\<rparr>)"
| started: "reachable d \<Longrightarrow> reachable (snd (Document_startTransaction d beforeState))"
| tx_created:
    "reachable d \<Longrightarrow> isTransacting d \<Longrightarrow> reachable (snd (TransactionDocument_create d nodeData))"
| tx_deleted:
    "reachable d \<Longrightarrow> isTransacting d \<Longrightarrow> reachable (snd (TransactionDocument_delete d nodeId))"
| tx_set:
    "reachable d \<Longrightarrow> isTransacting d \<Longrightarrow> reachable (snd (TransactionDocument_set d p v))"
| tx_updated:
    "reachable d \<Longrightarrow> isTransacting d \<Longrightarrow> reachable (snd (TransactionDocument_update d p df))"
| saved: "reachable d \<Longrightarrow> reachable (snd (TransactionDocument_save d afterState info))"
| cancelled: "reachable d \<Longrightarrow> reachable (snd (TransactionDocument_cancel d))"
| seeded: "reachable d \<Longrightarrow> reachable (snd (Document_loadSeed d seed))"
| loaded: "reachable d \<Longrightarrow> \<not> isTransacting d \<Longrightarrow> reachable (snd (Document_documentDidLoad d))"
| undone: "reachable d \<Longrightarrow> Document_undo d = (Returned (), d') \<Longrightarrow> reachable d'"
| redone: "reachable d \<Longrightarrow> Document_redo d = (Returned (), d') \<Longrightarrow> reachable d'"
| undo_refused: "reachable d \<Longrightarrow> isTransacting d \<Longrightarrow> reachable (snd (Document_undo d))"
| redo_refused: "reachable d \<Longrightarrow> isTransacting d \<Longrightarrow> reachable (snd (Document_redo d))"

text \<open>An initialisation that creates no node, and the document it constructs.\<close>

definition empty_initialize :: "document \<Rightarrow> unit outcome \<times> document" where
  "empty_initialize d = (Returned (), d)"

definition fresh_document :: document where
  "fresh_document = snd (Document_constructor empty_initialize)"

definition paragraph_p1 :: node where
  "paragraph_p1 =
     \<lparr>node_id = ''p1'', node_type = ''paragraph'', properties = [(''content'', JStr ''Hello World'')]\<rparr>"

definition paragraph_p2 :: node where
  "paragraph_p2 =
     \<lparr>node_id = ''p2'', node_type = ''paragraph'', properties = [(''content'', JStr ''Second'')]\<rparr>"

text \<open>A transaction that has just been started on the fresh document.\<close>

definition started_document :: document where
  "started_document = snd (Document_startTransaction fresh_document (Some [(''selection'', JStr ''sel0'')]))"

text \<open>The same transaction after \<^verbatim>\<open>tx.create(p1)\<close>.\<close>

definition writing_document :: document where
  "writing_document = snd (TransactionDocument_create started_document paragraph_p1)"

text \<open>Transformations: each creates one paragraph and returns the new selection.\<close>

definition insert_p1 :: transformation where
  "insert_p1 tx =
     and_then (TransactionDocument_create tx paragraph_p1)
       (\<lambda>_ d. (Returned (Some [(''selection'', JStr ''sel1'')]), d))"

definition insert_p2 :: transformation where
  "insert_p2 tx =
     and_then (TransactionDocument_create tx paragraph_p2)
       (\<lambda>_ d. (Returned (Some [(''selection'', JStr ''sel2'')]), d))"

text \<open>Transformations that touch no node and only return state.\<close>

definition clear_selection :: transformation where
  "clear_selection tx = (Returned (Some [(''selection'', JNull)]), tx)"

definition move_selection :: transformation where
  "move_selection tx =
     (Returned (Some [(''selection'', JStr ''sel1''), (''scroll'', JNum 0), (''extra'', JBool True)]), tx)"

definition change_p1 :: document_change where
  "change_p1 = \<lparr>ops = [OpCreate paragraph_p1], before = [(''selection'', JStr ''sel0'')],
                 after = [(''selection'', JStr ''sel1'')]\<rparr>"

definition change_p2 :: document_change where
  "change_p2 = \<lparr>ops = [OpCreate paragraph_p2], before = [(''selection'', JStr ''sel1'')],
                 after = [(''selection'', JStr ''sel2'')]\<rparr>"

text \<open>
  A short history on the fresh document: two committed transactions, then \<^verbatim>\<open>undo\<close>
  twice; and a new transaction opened after the first \<^verbatim>\<open>undo\<close>.
\<close>

definition one_commit :: document where
  "one_commit = snd (Document_transaction fresh_document
      (Args2 (Some [(''selection'', JStr ''sel0'')]) (Some insert_p1)))"

definition two_commits :: document where
  "two_commits = snd (Document_transaction one_commit
      (Args2 (Some [(''selection'', JStr ''sel1'')]) (Some insert_p2)))"

definition one_undone :: document where
  "one_undone = snd (Document_undo two_commits)"

definition two_undone :: document where
  "two_undone = snd (Document_undo one_undone)"

definition rewriting_document :: document where
  "rewriting_document =
     snd (TransactionDocument_create (snd (Document_startTransaction one_undone None)) paragraph_p2)"

text \<open>
  A history whose last change cannot be undone: two paragraphs are created outside a
  transaction, a transaction deletes both, and the first is created again, outside a
  transaction. The inverse of the deletion creates \<open>p2\<close> and then \<open>p1\<close>, which exists.
\<close>

definition two_nodes :: document where
  "two_nodes = snd (Document_create (snd (Document_create fresh_document paragraph_p1)) paragraph_p2)"

definition remove_both :: transformation where
  "remove_both tx =
     and_then (TransactionDocument_delete tx ''p1'')
       (\<lambda>_ d. and_then (TransactionDocument_delete d ''p2'') (\<lambda>_ d1. (Returned (Some []), d1)))"

definition emptied_document :: document where
  "emptied_document = snd (Document_transaction two_nodes (Args1 (Some remove_both)))"

definition refilled_document :: document where
  "refilled_document = snd (Document_create emptied_document paragraph_p1)"

text \<open>\<^verbatim>\<open>documentDidLoad\<close> called inside the transaction that has created \<open>p1\<close>.\<close>

definition reloaded_document :: document where
  "reloaded_document = snd (Document_documentDidLoad writing_document)"

text \<open>
  A transformation that commits the transaction itself, with an after state of its own,
  and then returns state.
\<close>

definition save_own :: transformation where
  "save_own tx =
     and_then (TransactionDocument_save tx [(''selection'', JStr ''mine''), (''zzz'', JNum 1)] JUndefined)
       (\<lambda>_ d. (Returned (Some [(''selection'', JStr ''sel1'')]), d))"

section \<open>Evaluation of the example documents\<close>

lemmas call_defs =
  and_then_def try_finally_def Let_def stage_mutate_def live_mutate_def
  TransactionDocument_create_def TransactionDocument_delete_def TransactionDocument_set_def
  TransactionDocument_update_def AbstractDocument_create_def AbstractDocument_delete_def
  AbstractDocument_set_def AbstractDocument_update_def TransactionDocument_apply_def
  TransactionDocument_reset_def TransactionDocument_save_def TransactionDocument_cancel_def
  TransactionDocument_finish_def TransactionDocument_loadSeed_def
  Document_constructor_def Document_startTransaction_def Document_notifyChangeListeners_def
  Document_apply_def Document_saveTransaction_def Document_cancelTransaction_def
  Document_transaction_def Document_loadSeed_def Document_fromSnapshot_def
  Data_create_def Data_delete_def Data_set_def Data_update_def transaction_afterState_def

lemma paragraph_ids [simp]: "node_id paragraph_p1 = ''p1''" "node_id paragraph_p2 = ''p2''"
  by (simp_all add: paragraph_p1_def paragraph_p2_def)

lemma fresh_document_eq:
  "fresh_document =
     \<lparr>data = Map.empty, stage = Some \<lparr>tx_data = Map.empty, tx_ops = [], tx_before = []\<rparr>,
      isTransacting = False, done_stack = [], undone_stack = [], FORCE_TRANSACTIONS = False,
      emitted = [], console = []\<rparr>"
  by (simp add: fresh_document_def empty_initialize_def Document_constructor_def and_then_def)

lemma started_document_eq:
  "started_document =
     \<lparr>data = Map.empty,
      stage = Some \<lparr>tx_data = Map.empty, tx_ops = [], tx_before = [(''selection'', JStr ''sel0'')]\<rparr>,
      isTransacting = True, done_stack = [], undone_stack = [], FORCE_TRANSACTIONS = False,
      emitted = [TransactionStarted], console = []\<rparr>"
  by (simp add: started_document_def fresh_document_eq Document_startTransaction_def)

lemma writing_document_eq:
  "writing_document =
     \<lparr>data = Map.empty,
      stage = Some \<lparr>tx_data = [''p1'' \<mapsto> paragraph_p1], tx_ops = [OpCreate paragraph_p1],
                    tx_before = [(''selection'', JStr ''sel0'')]\<rparr>,
      isTransacting = True, done_stack = [], undone_stack = [], FORCE_TRANSACTIONS = False,
      emitted = [TransactionStarted], console = []\<rparr>"
  by (simp add: writing_document_def started_document_eq TransactionDocument_create_def
      stage_mutate_def Data_create_def)

lemma one_commit_eq:
  "one_commit =
     \<lparr>data = [''p1'' \<mapsto> paragraph_p1],
      stage = Some \<lparr>tx_data = [''p1'' \<mapsto> paragraph_p1], tx_ops = [], tx_before = []\<rparr>,
      isTransacting = False, done_stack = [change_p1], undone_stack = [], FORCE_TRANSACTIONS = False,
      emitted = [TransactionStarted, DocumentChanged change_p1 (JObj [])], console = []\<rparr>"
  by (simp add: one_commit_def fresh_document_eq insert_p1_def change_p1_def call_defs
      obj_get_def obj_set_def)

lemma two_commits_eq:
  "two_commits =
     \<lparr>data = [''p1'' \<mapsto> paragraph_p1, ''p2'' \<mapsto> paragraph_p2],
      stage = Some \<lparr>tx_data = [''p1'' \<mapsto> paragraph_p1, ''p2'' \<mapsto> paragraph_p2],
                    tx_ops = [], tx_before = []\<rparr>,
      isTransacting = False, done_stack = [change_p1, change_p2], undone_stack = [],
      FORCE_TRANSACTIONS = False,
      emitted = [TransactionStarted, DocumentChanged change_p1 (JObj []),
                 TransactionStarted, DocumentChanged change_p2 (JObj [])], console = []\<rparr>"
  by (simp add: two_commits_def one_commit_eq insert_p2_def change_p2_def call_defs
      obj_get_def obj_set_def)

lemma one_undone_eq:
  "one_undone =
     \<lparr>data = [''p1'' \<mapsto> paragraph_p1],
      stage = Some \<lparr>tx_data = [''p1'' \<mapsto> paragraph_p1], tx_ops = [], tx_before = []\<rparr>,
      isTransacting = False, done_stack = [change_p1],
      undone_stack = [DocumentChange_invert change_p2], FORCE_TRANSACTIONS = False,
      emitted = [TransactionStarted, DocumentChanged change_p1 (JObj []),
                 TransactionStarted, DocumentChanged change_p2 (JObj []),
                 DocumentChanged (DocumentChange_invert change_p2) (JObj [(''replay'', JBool True)])],
      console = []\<rparr>"
  by (simp add: one_undone_def two_commits_eq Document_undo_def change_p2_def
      DocumentChange_invert_def call_defs fun_upd_twist)

lemma two_undone_eq:
  "two_undone =
     \<lparr>data = Map.empty,
      stage = Some \<lparr>tx_data = Map.empty, tx_ops = [], tx_before = []\<rparr>,
      isTransacting = False, done_stack = [],
      undone_stack = [DocumentChange_invert change_p2, DocumentChange_invert change_p1],
      FORCE_TRANSACTIONS = False,
      emitted = [TransactionStarted, DocumentChanged change_p1 (JObj []),
                 TransactionStarted, DocumentChanged change_p2 (JObj []),
                 DocumentChanged (DocumentChange_invert change_p2) (JObj [(''replay'', JBool True)]),
                 DocumentChanged (DocumentChange_invert change_p1) (JObj [(''replay'', JBool True)])],
      console = []\<rparr>"
  by (simp add: two_undone_def one_undone_eq Document_undo_def change_p1_def
      DocumentChange_invert_def call_defs)

lemma rewriting_document_eq:
  "rewriting_document =
     \<lparr>data = [''p1'' \<mapsto> paragraph_p1],
      stage = Some \<lparr>tx_data = [''p1'' \<mapsto> paragraph_p1, ''p2'' \<mapsto> paragraph_p2],
                    tx_ops = [OpCreate paragraph_p2], tx_before = []\<rparr>,
      isTransacting = True, done_stack = [change_p1],
      undone_stack = [DocumentChange_invert change_p2], FORCE_TRANSACTIONS = False,
      emitted = [TransactionStarted, DocumentChanged change_p1 (JObj []),
                 TransactionStarted, DocumentChanged change_p2 (JObj []),
                 DocumentChanged (DocumentChange_invert change_p2) (JObj [(''replay'', JBool True)]),
                 TransactionStarted], console = []\<rparr>"
  by (simp add: rewriting_document_def one_undone_eq call_defs)

lemma two_nodes_eq:
  "two_nodes = fresh_document\<lparr>data := [''p1'' \<mapsto> paragraph_p1, ''p2'' \<mapsto> paragraph_p2],
     stage := Some \<lparr>tx_data = [''p1'' \<mapsto> paragraph_p1, ''p2'' \<mapsto> paragraph_p2],
                    tx_ops = [], tx_before = []\<rparr>\<rparr>"
  by (simp add: two_nodes_def fresh_document_eq Document_create_def call_defs)

lemma emptied_document_eq:
  "emptied_document = fresh_document\<lparr>
     done_stack := [\<lparr>ops = [OpDelete paragraph_p1, OpDelete paragraph_p2], before = [], after = []\<rparr>],
     emitted := [TransactionStarted,
       DocumentChanged \<lparr>ops = [OpDelete paragraph_p1, OpDelete paragraph_p2], before = [], after = []\<rparr>
         (JObj [])]\<rparr>"
  by (simp add: emptied_document_def two_nodes_eq remove_both_def fresh_document_eq call_defs)

lemma refilled_document_eq:
  "refilled_document = emptied_document\<lparr>data := [''p1'' \<mapsto> paragraph_p1],
     stage := Some \<lparr>tx_data = [''p1'' \<mapsto> paragraph_p1], tx_ops = [], tx_before = []\<rparr>\<rparr>"
  by (simp add: refilled_document_def emptied_document_eq fresh_document_eq Document_create_def call_defs)

text \<open>
  The \<^verbatim>\<open>undo\<close> that fails: the change has left \<open>done\<close>, the stage holds \<open>p2\<close> again, the
  live store does not.
\<close>

lemma undo_refilled:
  "Document_undo refilled_document =
     (Thrown (InvalidOperation ''node exists''),
      refilled_document\<lparr>done_stack := [],
        stage := Some \<lparr>tx_data = [''p1'' \<mapsto> paragraph_p1, ''p2'' \<mapsto> paragraph_p2],
                       tx_ops = [], tx_before = []\<rparr>\<rparr>)"
  by (simp add: refilled_document_eq emptied_document_eq fresh_document_eq Document_undo_def
      DocumentChange_invert_def call_defs)

text \<open>
  The commit after \<^verbatim>\<open>documentDidLoad\<close>: the buffer is empty, so the live store receives
  nothing of what the stage holds.
\<close>

lemma reloaded_saved:
  "TransactionDocument_save reloaded_document [] JUndefined =
     (Returned (),
      writing_document\<lparr>isTransacting := False,
        stage := Some \<lparr>tx_data = [''p1'' \<mapsto> paragraph_p1], tx_ops = [], tx_before = []\<rparr>,
        done_stack := [\<lparr>ops = [], before = [], after = []\<rparr>],
        emitted := [TransactionStarted, DocumentChanged \<lparr>ops = [], before = [], after = []\<rparr> (JObj [])]\<rparr>)"
  by (simp add: reloaded_document_def writing_document_eq Document_documentDidLoad_def call_defs)

section \<open>Operations and their inverses\<close>

lemma splice_inverse:
  assumes "splice pos removed inserted xs = Some ys"
  shows "splice pos inserted removed ys = Some xs"
proof -
  from assms have le: "pos + length removed \<le> length xs"
    and tk: "take (length removed) (drop pos xs) = removed"
    and ys: "ys = take pos xs @ inserted @ drop (pos + length removed) xs"
    by (auto simp: splice_def split: if_splits)
  have len: "length (take pos xs) = pos"
    using le by simp
  have rest: "drop pos ys = inserted @ drop (pos + length removed) xs"
    using len by (simp add: ys)
  have front: "take pos ys = take pos xs"
    using len by (simp add: ys)
  have behind: "drop (pos + length inserted) ys = drop (pos + length removed) xs"
    using rest by (metis append_eq_conv_conj drop_drop add.commute)
  have whole: "take pos xs @ removed @ drop (pos + length removed) xs = xs"
    by (metis tk append_take_drop_id drop_drop add.commute)
  have "pos + length inserted \<le> length ys"
    using le by (simp add: ys)
  moreover have "take (length inserted) (drop pos ys) = inserted"
    by (simp add: rest)
  ultimately show ?thesis
    by (simp add: splice_def front behind whole)
qed

lemma apply_diff_inverse:
  "apply_diff df v = Some v' \<Longrightarrow> apply_diff (invert_diff df) v' = Some v"
  by (cases "(df, v)" rule: apply_diff.cases) (auto dest: splice_inverse)

lemma invert_diff_invert [simp]: "invert_diff (invert_diff df) = df"
  by (cases df) simp_all

lemma invert_op_invert [simp]: "invert_op (invert_op x) = x"
  by (cases x) simp_all

lemma obj_set_original:
  "map_of ps p = Some original \<Longrightarrow> obj_set (obj_set ps p v) p original = ps"
  by (simp add: obj_set_def update_triv)

lemma map_of_obj_set [simp]: "map_of (obj_set ps p v) p = Some v"
  by (simp add: obj_set_def update_conv')

text \<open>
  An operation that has been applied can be taken back: its inverse applies to the new
  store and gives the old one.
\<close>

lemma Data_apply_inverse:
  assumes "Data_apply x s = Inr s'"
  shows "Data_apply (invert_op x) s' = Inr s"
proof (cases x)
  case (OpCreate n)
  with assms have "s (node_id n) = None" "s' = s(node_id n \<mapsto> n)"
    by (auto split: option.splits)
  then show ?thesis
    using OpCreate by (auto simp: fun_eq_iff)
next
  case (OpDelete n)
  with assms have "s (node_id n) = Some n" "s' = s(node_id n := None)"
    by (auto split: if_splits)
  then show ?thesis
    using OpDelete by (auto simp: fun_eq_iff)
next
  case (OpSet pth v original)
  obtain i p where pth: "pth = (i, p)"
    by (cases pth)
  from assms OpSet pth obtain n where "s i = Some n" "map_of (properties n) p = Some original"
    "s' = s(i \<mapsto> n\<lparr>properties := obj_set (properties n) p v\<rparr>)"
    by (auto split: option.splits if_splits)
  then show ?thesis
    using OpSet pth by (auto simp: fun_eq_iff obj_set_original)
next
  case (OpUpdate pth df)
  obtain i p where pth: "pth = (i, p)"
    by (cases pth)
  from assms OpUpdate pth obtain n v v' where "s i = Some n" "map_of (properties n) p = Some v"
    "apply_diff df v = Some v'"
    "s' = s(i \<mapsto> n\<lparr>properties := obj_set (properties n) p v'\<rparr>)"
    by (auto split: option.splits if_splits)
  then show ?thesis
    using OpUpdate pth by (auto simp: fun_eq_iff obj_set_original dest: apply_diff_inverse)
qed

lemma apply_each_append:
  "apply_each (xs @ ys) s =
     (case apply_each xs s of
        (Thrown e, s') \<Rightarrow> (Thrown e, s')
      | (Returned _, s') \<Rightarrow> apply_each ys s')"
  by (induction xs arbitrary: s) (auto split: sum.splits)

lemma apply_each_snoc:
  "apply_each xs s = (Returned (), t) \<Longrightarrow> Data_apply x t = Inr t' \<Longrightarrow>
   apply_each (xs @ [x]) s = (Returned (), t')"
  by (simp add: apply_each_append)

text \<open>
  Spec, section 8: applying a sequence of operations and then the inverse of each in
  reverse order gives the store one started from.
\<close>

lemma apply_each_inverse:
  "apply_each xs s = (Returned (), s') \<Longrightarrow>
   apply_each (rev (map invert_op xs)) s' = (Returned (), s)"
proof (induction xs arbitrary: s)
  case Nil
  then show ?case by simp
next
  case (Cons x xs)
  then obtain s1 where first: "Data_apply x s = Inr s1" and rest: "apply_each xs s1 = (Returned (), s')"
    by (auto split: sum.splits)
  from Cons.IH [OF rest] Data_apply_inverse [OF first] show ?case
    by (simp add: apply_each_append)
qed

lemma DocumentChange_invert_invert [simp]:
  "DocumentChange_invert (DocumentChange_invert c) = c"
  by (simp add: DocumentChange_invert_def rev_map comp_def)

lemma generated_op_applies:
  "Data_create s nodeData = Inr (x, s') \<Longrightarrow> Data_apply x s = Inr s'"
  "Data_delete s nodeId = Inr (x, s') \<Longrightarrow> Data_apply x s = Inr s'"
  "Data_set s p v = Inr (x, s') \<Longrightarrow> Data_apply x s = Inr s'"
  "Data_update s p df = Inr (x, s') \<Longrightarrow> Data_apply x s = Inr s'"
  by (auto simp: Data_create_def Data_delete_def Data_set_def Data_update_def
      split: sum.splits option.splits)

section \<open>What the calls of the document do\<close>

lemma stage_mutate_frame:
  "isTransacting (snd (stage_mutate d f)) = isTransacting d \<and>
   done_stack (snd (stage_mutate d f)) = done_stack d"
  by (auto simp: stage_mutate_def split: option.splits sum.splits)

lemma apply_Returned:
  "Document_apply d c m = (Returned (), d') \<Longrightarrow>
   \<not> isTransacting d \<and>
   (\<exists>s'. apply_each (ops c) (data d) = (Returned (), s') \<and>
     (if m \<noteq> JStr ''skipStage''
      then (\<exists>tx t'. stage d = Some tx \<and> apply_each (ops c) (tx_data tx) = (Returned (), t') \<and>
              d' = d\<lparr>data := s', stage := Some (tx\<lparr>tx_data := t'\<rparr>)\<rparr>)
      else d' = d\<lparr>data := s'\<rparr>))"
  by (auto simp: Document_apply_def TransactionDocument_apply_def and_then_def
      split: if_splits option.splits prod.splits outcome.splits)

lemma apply_frame:
  "done_stack (snd (Document_apply d c m)) = done_stack d \<and>
   undone_stack (snd (Document_apply d c m)) = undone_stack d \<and>
   emitted (snd (Document_apply d c m)) = emitted d \<and>
   console (snd (Document_apply d c m)) = console d \<and>
   isTransacting (snd (Document_apply d c m)) = isTransacting d"
  by (auto simp: Document_apply_def TransactionDocument_apply_def and_then_def
      split: if_splits option.splits prod.splits outcome.splits)

lemma apply_mirrored:
  assumes "stage d = Some tx" "tx_data tx = data d" "\<not> isTransacting d"
    and "apply_each (ops c) (data d) = (Returned (), s')"
  shows "Document_apply d c JUndefined =
     (Returned (), d\<lparr>data := s', stage := Some (tx\<lparr>tx_data := s'\<rparr>)\<rparr>)"
  using assms by (simp add: Document_apply_def TransactionDocument_apply_def and_then_def)

lemma saveTransaction_Returned:
  assumes "Document_saveTransaction d b a info = (Returned (), d')"
  shows "\<exists>tx s'. isTransacting d \<and> stage d = Some tx \<and>
           apply_each (tx_ops tx) (data d) = (Returned (), s') \<and>
           d' = d\<lparr>isTransacting := False, data := s',
                  done_stack := done_stack d @ [\<lparr>ops = tx_ops tx, before = b, after = a\<rparr>],
                  undone_stack := [],
                  emitted := emitted d @
                    [DocumentChanged \<lparr>ops = tx_ops tx, before = b, after = a\<rparr>
                       (if truthy info then info else JObj [])]\<rparr>"
  using assms
  by (auto simp: Document_saveTransaction_def Document_apply_def and_then_def Let_def
      Document_notifyChangeListeners_def
      split: if_splits option.splits prod.splits outcome.splits)

lemma save_Returned:
  assumes "TransactionDocument_save d a info = (Returned (), d')"
  shows "\<exists>tx s'. isTransacting d \<and> stage d = Some tx \<and>
           apply_each (tx_ops tx) (data d) = (Returned (), s') \<and>
           d' = d\<lparr>isTransacting := False, data := s',
                  stage := Some (TransactionDocument_reset tx),
                  done_stack := done_stack d @ [\<lparr>ops = tx_ops tx, before = tx_before tx, after = a\<rparr>],
                  undone_stack := [],
                  emitted := emitted d @
                    [DocumentChanged \<lparr>ops = tx_ops tx, before = tx_before tx, after = a\<rparr>
                       (if truthy info then info else JObj [])]\<rparr>"
proof -
  from assms obtain tx d1 where tx: "stage d = Some tx"
    and inner: "Document_saveTransaction d (tx_before tx) a info = (Returned (), d1)"
    and d': "d' = d1\<lparr>stage := map_option TransactionDocument_reset (stage d1)\<rparr>"
    by (auto simp: TransactionDocument_save_def and_then_def
        split: option.splits prod.splits outcome.splits)
  from saveTransaction_Returned [OF inner] tx d' show ?thesis
    by auto
qed

lemma try_finally_Returned:
  "try_finally r cleanup = (Returned x, d') \<Longrightarrow>
   fst r = Returned x \<and> cleanup (snd r) = (Returned (), d')"
  by (auto simp: try_finally_def split: prod.splits outcome.splits)

lemma undo_Returned:
  assumes "done_stack d = cs @ [c]" and "Document_undo d = (Returned (), d')"
  shows "undone_stack d' = undone_stack d @ [DocumentChange_invert c] \<and> done_stack d' = cs \<and>
         emitted d' = emitted d @
           [DocumentChanged (DocumentChange_invert c) (JObj [(''replay'', JBool True)])]"
proof -
  let ?p = "d\<lparr>done_stack := butlast (done_stack d)\<rparr>"
  obtain r d1 where ap: "Document_apply ?p (DocumentChange_invert c) JUndefined = (r, d1)"
    by (cases "Document_apply ?p (DocumentChange_invert c) JUndefined")
  from apply_frame [of ?p "DocumentChange_invert c" JUndefined] ap
  have fr: "done_stack d1 = cs" "undone_stack d1 = undone_stack d" "emitted d1 = emitted d"
    using assms(1) by simp_all
  from assms ap fr show ?thesis
    by (cases r)
       (auto simp: Document_undo_def and_then_def Document_notifyChangeListeners_def Let_def)
qed

lemma redo_Returned:
  assumes "undone_stack d = us @ [u]" and "Document_redo d = (Returned (), d')"
  shows "undone_stack d' = us \<and> done_stack d' = done_stack d @ [DocumentChange_invert u] \<and>
         emitted d' = emitted d @
           [DocumentChanged (DocumentChange_invert u) (JObj [(''replay'', JBool True)])]"
proof -
  let ?p = "d\<lparr>undone_stack := butlast (undone_stack d)\<rparr>"
  obtain r d1 where ap: "Document_apply ?p (DocumentChange_invert u) JUndefined = (r, d1)"
    by (cases "Document_apply ?p (DocumentChange_invert u) JUndefined")
  from apply_frame [of ?p "DocumentChange_invert u" JUndefined] ap
  have fr: "done_stack d1 = done_stack d" "undone_stack d1 = us" "emitted d1 = emitted d"
    using assms(1) by simp_all
  from assms ap fr show ?thesis
    by (cases r)
       (auto simp: Document_redo_def and_then_def Document_notifyChangeListeners_def Let_def)
qed

text \<open>
  \<^verbatim>\<open>undo\<close> and \<^verbatim>\<open>redo\<close> on a document at rest whose topmost change is the one that led
  from the store \<open>s0\<close> to the present store.
\<close>

lemma undo_general:
  assumes "stage d = Some tx" "tx_data tx = data d" "\<not> isTransacting d"
    and "done_stack d = cs @ [c]" and "apply_each (ops c) s0 = (Returned (), data d)"
  shows "Document_undo d =
     (Returned (),
      d\<lparr>data := s0, stage := Some (tx\<lparr>tx_data := s0\<rparr>), done_stack := cs,
        undone_stack := undone_stack d @ [DocumentChange_invert c],
        emitted := emitted d @
          [DocumentChanged (DocumentChange_invert c) (JObj [(''replay'', JBool True)])]\<rparr>)"
proof -
  let ?p = "d\<lparr>done_stack := butlast (done_stack d)\<rparr>"
  have run: "apply_each (ops (DocumentChange_invert c)) (data ?p) = (Returned (), s0)"
    using apply_each_inverse [OF assms(5)] by (simp add: DocumentChange_invert_def)
  have "Document_apply ?p (DocumentChange_invert c) JUndefined =
      (Returned (), ?p\<lparr>data := s0, stage := Some (tx\<lparr>tx_data := s0\<rparr>)\<rparr>)"
    using assms(1-3) by (intro apply_mirrored [OF _ _ _ run]) simp_all
  then show ?thesis
    using assms(4)
    by (simp add: Document_undo_def and_then_def Document_notifyChangeListeners_def Let_def)
qed

lemma redo_general:
  assumes "stage d = Some tx" "tx_data tx = data d" "\<not> isTransacting d"
    and "undone_stack d = us @ [u]" and "apply_each (ops u) s0 = (Returned (), data d)"
  shows "Document_redo d =
     (Returned (),
      d\<lparr>data := s0, stage := Some (tx\<lparr>tx_data := s0\<rparr>), undone_stack := us,
        done_stack := done_stack d @ [DocumentChange_invert u],
        emitted := emitted d @
          [DocumentChanged (DocumentChange_invert u) (JObj [(''replay'', JBool True)])]\<rparr>)"
proof -
  let ?p = "d\<lparr>undone_stack := butlast (undone_stack d)\<rparr>"
  have run: "apply_each (ops (DocumentChange_invert u)) (data ?p) = (Returned (), s0)"
    using apply_each_inverse [OF assms(5)] by (simp add: DocumentChange_invert_def)
  have "Document_apply ?p (DocumentChange_invert u) JUndefined =
      (Returned (), ?p\<lparr>data := s0, stage := Some (tx\<lparr>tx_data := s0\<rparr>)\<rparr>)"
    using assms(1-3) by (intro apply_mirrored [OF _ _ _ run]) simp_all
  then show ?thesis
    using assms(4)
    by (simp add: Document_redo_def and_then_def Document_notifyChangeListeners_def Let_def)
qed

lemma undo_redo_general:
  assumes "stage d = Some tx" "tx_data tx = data d" "\<not> isTransacting d"
    and "done_stack d = cs @ [c]" and "apply_each (ops c) s0 = (Returned (), data d)"
  shows "Document_redo (snd (Document_undo d)) =
     (Returned (),
      d\<lparr>emitted := emitted d @
          [DocumentChanged (DocumentChange_invert c) (JObj [(''replay'', JBool True)]),
           DocumentChanged c (JObj [(''replay'', JBool True)])]\<rparr>)"
proof -
  let ?d2 = "d\<lparr>data := s0, stage := Some (tx\<lparr>tx_data := s0\<rparr>), done_stack := cs,
        undone_stack := undone_stack d @ [DocumentChange_invert c],
        emitted := emitted d @
          [DocumentChanged (DocumentChange_invert c) (JObj [(''replay'', JBool True)])]\<rparr>"
  have u: "Document_undo d = (Returned (), ?d2)"
    by (rule undo_general [OF assms])
  have run: "apply_each (ops (DocumentChange_invert c)) (data d) = (Returned (), data ?d2)"
    using apply_each_inverse [OF assms(5)] by (simp add: DocumentChange_invert_def)
  have "Document_redo ?d2 =
     (Returned (),
      ?d2\<lparr>data := data d, stage := Some (tx\<lparr>tx_data := s0, tx_data := data d\<rparr>),
        undone_stack := undone_stack d,
        done_stack := done_stack ?d2 @ [DocumentChange_invert (DocumentChange_invert c)],
        emitted := emitted ?d2 @
          [DocumentChanged (DocumentChange_invert (DocumentChange_invert c))
             (JObj [(''replay'', JBool True)])]\<rparr>)"
    using assms(3) by (intro redo_general [OF _ _ _ _ run]) simp_all
  then show ?thesis
    using assms(1,2,4) by (simp add: u)
qed

section \<open>The stage during and after a transaction\<close>

lemma idle_mirrored: "idle d \<Longrightarrow> mirrored d"
  by (auto simp: idle_def mirrored_def split: option.splits)

lemma idle_staged: "idle d \<Longrightarrow> staged d"
  by (auto simp: idle_def staged_def split: option.splits)

lemma fresh_document_idle: "idle fresh_document"
  by (simp add: fresh_document_eq idle_def)

lemma startTransaction_staged:
  assumes "idle d"
  shows "fst (Document_startTransaction d beforeState) = Returned () \<and>
         staged (snd (Document_startTransaction d beforeState)) \<and>
         isTransacting (snd (Document_startTransaction d beforeState))"
  using assms
  by (auto simp: idle_def staged_def Document_startTransaction_def split: option.splits)

lemma stage_mutate_staged:
  assumes "staged d" "isTransacting d"
    and gen: "\<And>s x s'. f s = Inr (x, s') \<Longrightarrow> Data_apply x s = Inr s'"
  shows "staged (snd (stage_mutate d f)) \<and> isTransacting (snd (stage_mutate d f)) \<and>
         data (snd (stage_mutate d f)) = data d"
proof (cases "stage d")
  case None
  with assms(1) show ?thesis
    by (simp add: staged_def)
next
  case (Some tx)
  show ?thesis
  proof (cases "f (tx_data tx)")
    case (Inl e)
    with Some assms(1,2) show ?thesis
      by (simp add: stage_mutate_def)
  next
    case (Inr r)
    obtain x s' where r: "r = (x, s')"
      by (cases r)
    from assms(1) Some have run: "apply_each (tx_ops tx) (data d) = (Returned (), tx_data tx)"
      by (simp add: staged_def)
    from gen Inr r have "Data_apply x (tx_data tx) = Inr s'"
      by simp
    from apply_each_snoc [OF run this] Some Inr r assms(2) show ?thesis
      by (simp add: stage_mutate_def staged_def)
  qed
qed

text \<open>Every mutation made through the stage during a transaction keeps the stage ahead of
  the live store by exactly the buffer.\<close>

lemma transaction_mutations_staged:
  assumes "staged d" "isTransacting d"
  shows "staged (snd (TransactionDocument_create d nodeData))"
    and "staged (snd (TransactionDocument_delete d nodeId))"
    and "staged (snd (TransactionDocument_set d p v))"
    and "staged (snd (TransactionDocument_update d p df))"
  using assms
  by (simp_all add: TransactionDocument_create_def TransactionDocument_delete_def
      TransactionDocument_set_def TransactionDocument_update_def
      stage_mutate_staged generated_op_applies)

text \<open>From such a state the commit cannot fail, and it leaves the document at rest.\<close>

lemma save_idle:
  assumes "staged d" "isTransacting d"
  shows "\<exists>d'. TransactionDocument_save d afterState info = (Returned (), d') \<and> idle d'"
proof -
  from assms(1) obtain tx where "stage d = Some tx"
    and "apply_each (tx_ops tx) (data d) = (Returned (), tx_data tx)"
    by (auto simp: staged_def split: option.splits)
  with assms(2) show ?thesis
    by (simp add: TransactionDocument_save_def Document_saveTransaction_def Document_apply_def
        Document_notifyChangeListeners_def and_then_def Let_def idle_def
        TransactionDocument_reset_def)
qed

text \<open>Cancelling reverts the stage to the live store and touches neither store nor history.\<close>

lemma cancel_idle:
  assumes "staged d" "isTransacting d"
  shows "\<exists>d'. TransactionDocument_cancel d = (Returned (), d') \<and> idle d' \<and> data d' = data d \<and>
           done_stack d' = done_stack d \<and> undone_stack d' = undone_stack d"
proof -
  from assms(1) obtain tx where tx: "stage d = Some tx"
    and run: "apply_each (tx_ops tx) (data d) = (Returned (), tx_data tx)"
    by (auto simp: staged_def split: option.splits)
  from apply_each_inverse [OF run] tx assms(2) show ?thesis
    by (simp add: TransactionDocument_cancel_def Document_cancelTransaction_def and_then_def
        idle_def TransactionDocument_reset_def)
qed

lemma saveTransaction_mirrored:
  assumes "staged d" and "Document_saveTransaction d b a info = (Returned (), d')"
  shows "mirrored d' \<and> \<not> isTransacting d'"
  using saveTransaction_Returned [OF assms(2)] assms(1)
  by (auto simp: mirrored_def staged_def)

text \<open>A replay (\<^verbatim>\<open>_apply\<close> without \<^verbatim>\<open>'skipStage'\<close>) that returns keeps the mirror.\<close>

lemma apply_keeps_mirror:
  assumes "mirrored d" and "Document_apply d c JUndefined = (Returned (), d')"
  shows "mirrored d'"
  using apply_Returned [OF assms(2)] assms(1)
  by (auto simp: mirrored_def)

section \<open>Committing an empty transaction\<close>

text \<open>
  C1, as stated: the commit of a transaction with an empty buffer is not pushed onto
  \<open>done\<close>. It fails on the transaction that was just started on the fresh document:
  \<^verbatim>\<open>_saveTransaction\<close> pushes the change with zero operations.
\<close>

theorem saveTransaction_empty_counterexample:
  "isTransacting started_document \<and>
   map_option tx_ops (stage started_document) = Some [] \<and>
   done_stack started_document = [] \<and>
   done_stack (snd (Document_saveTransaction started_document
        [(''selection'', JStr ''sel0'')] [(''selection'', JStr ''sel0'')] JUndefined)) =
     [\<lparr>ops = [], before = [(''selection'', JStr ''sel0'')], after = [(''selection'', JStr ''sel0'')]\<rparr>]"
  by (simp add: started_document_eq call_defs)

text \<open>
  C1, amended. The commit of a transaction with an empty buffer returns normally and
  produces a change with zero operations; the store and the stage are left as they are;
  the change is pushed onto \<open>done\<close> like every other commit, \<open>undone\<close> is emptied and the
  listeners are notified.
\<close>

theorem saveTransaction_empty:
  "isTransacting d \<Longrightarrow> stage d = Some tx \<Longrightarrow> tx_ops tx = [] \<Longrightarrow>
   Document_saveTransaction d beforeState afterState info =
     (Returned (),
      d\<lparr>isTransacting := False,
        done_stack := done_stack d @ [\<lparr>ops = [], before = beforeState, after = afterState\<rparr>],
        undone_stack := [],
        emitted := emitted d @
          [DocumentChanged \<lparr>ops = [], before = beforeState, after = afterState\<rparr>
             (if truthy info then info else JObj [])]\<rparr>)"
  by (simp add: Document_saveTransaction_def Document_apply_def and_then_def
      Document_notifyChangeListeners_def Let_def)

theorem saveTransaction_empty_witness:
  "isTransacting started_document \<and>
   stage started_document =
     Some \<lparr>tx_data = Map.empty, tx_ops = [], tx_before = [(''selection'', JStr ''sel0'')]\<rparr> \<and>
   Document_saveTransaction started_document [(''selection'', JStr ''sel0'')] [] JUndefined =
     (Returned (),
      started_document\<lparr>isTransacting := False,
        done_stack := [\<lparr>ops = [], before = [(''selection'', JStr ''sel0'')], after = []\<rparr>],
        undone_stack := [],
        emitted := [TransactionStarted,
          DocumentChanged \<lparr>ops = [], before = [(''selection'', JStr ''sel0'')], after = []\<rparr> (JObj [])]\<rparr>)"
proof -
  let ?tx = "\<lparr>tx_data = Map.empty, tx_ops = [], tx_before = [(''selection'', JStr ''sel0'')]\<rparr>"
  have active: "isTransacting started_document"
    and st: "stage started_document = Some ?tx"
    and rest: "done_stack started_document = []" "emitted started_document = [TransactionStarted]"
    by (simp_all add: started_document_eq)
  have buffer: "tx_ops ?tx = []"
    by simp
  from saveTransaction_empty [OF active st buffer, of "[(''selection'', JStr ''sel0'')]" "[]" JUndefined]
    active st rest
  show ?thesis
    by simp
qed

section \<open>Undo and redo\<close>



text \<open>The same round trip right after \<^verbatim>\<open>_saveTransaction\<close>, before the buffer is emptied.\<close>

lemma saveTransaction_roundtrip:
  assumes st: "staged d0"
    and commit: "Document_saveTransaction d0 beforeState afterState info = (Returned (), d1)"
  shows "Document_redo (snd (Document_undo d1)) =
           (Returned (),
            d1\<lparr>emitted := emitted d1 @
               [DocumentChanged (DocumentChange_invert (last (done_stack d1)))
                  (JObj [(''replay'', JBool True)]),
                DocumentChanged (last (done_stack d1)) (JObj [(''replay'', JBool True)])]\<rparr>)"
proof -
  from saveTransaction_Returned [OF commit] obtain tx s' where
    tx: "stage d0 = Some tx" and run: "apply_each (tx_ops tx) (data d0) = (Returned (), s')"
    and d1: "d1 = d0\<lparr>isTransacting := False, data := s',
                  done_stack := done_stack d0 @
                    [\<lparr>ops = tx_ops tx, before = beforeState, after = afterState\<rparr>],
                  undone_stack := [],
                  emitted := emitted d0 @
                    [DocumentChanged \<lparr>ops = tx_ops tx, before = beforeState, after = afterState\<rparr>
                       (if truthy info then info else JObj [])]\<rparr>"
    by blast
  let ?c = "\<lparr>ops = tx_ops tx, before = beforeState, after = afterState\<rparr>"
  from st tx run have s': "s' = tx_data tx"
    by (simp add: staged_def)
  have h: "stage d1 = Some tx" "tx_data tx = data d1"
    "\<not> isTransacting d1" "done_stack d1 = done_stack d0 @ [?c]"
    "apply_each (ops ?c) (data d0) = (Returned (), data d1)"
    using run s' tx by (simp_all add: d1)
  from undo_redo_general [OF h] h(4) show ?thesis
    by simp
qed

text \<open>
  C7. A commit (\<^verbatim>\<open>_saveTransaction\<close> that returns) leaves \<open>undone\<close> empty. The replays do
  not wipe it: \<^verbatim>\<open>undo\<close> of the change \<open>c\<close> appends the inverted change to \<open>undone\<close>, and
  \<^verbatim>\<open>redo\<close> takes only the topmost entry \<open>c'\<close> off \<open>undone\<close> and keeps all entries \<open>us\<close>
  below it. Both replays notify the listeners with \<^verbatim>\<open>{replay: true}\<close>.
\<close>

theorem commit_clears_undone:
  "(Document_saveTransaction d beforeState afterState info = (Returned (), d1) \<longrightarrow>
      undone_stack d1 = []) \<and>
   (done_stack u = cs @ [c] \<longrightarrow> Document_undo u = (Returned (), u1) \<longrightarrow>
      undone_stack u1 = undone_stack u @ [DocumentChange_invert c] \<and>
      last (emitted u1) =
        DocumentChanged (DocumentChange_invert c) (JObj [(''replay'', JBool True)])) \<and>
   (undone_stack r = us @ [c'] \<longrightarrow> Document_redo r = (Returned (), r1) \<longrightarrow>
      undone_stack r1 = us \<and>
      last (emitted r1) =
        DocumentChanged (DocumentChange_invert c') (JObj [(''replay'', JBool True)]))"
  using saveTransaction_Returned [of d beforeState afterState info d1]
    undo_Returned [of u cs c u1] redo_Returned [of r us c' r1]
  by auto

theorem commit_clears_undone_witness:
  "undone_stack rewriting_document = [DocumentChange_invert change_p2] \<and>
   fst (Document_saveTransaction rewriting_document [] [] JUndefined) = Returned () \<and>
   undone_stack (snd (Document_saveTransaction rewriting_document [] [] JUndefined)) = [] \<and>
   done_stack two_commits = [change_p1] @ [change_p2] \<and>
   Document_undo two_commits = (Returned (), one_undone) \<and>
   undone_stack one_undone = [DocumentChange_invert change_p2] \<and>
   undone_stack two_undone = [DocumentChange_invert change_p2] @ [DocumentChange_invert change_p1] \<and>
   fst (Document_redo two_undone) = Returned () \<and>
   undone_stack (snd (Document_redo two_undone)) = [DocumentChange_invert change_p2]"
proof -
  let ?s = "Document_saveTransaction rewriting_document [] [] JUndefined"
  let ?r = "Document_redo two_undone"
  have s1: "fst ?s = Returned ()"
    by (simp add: rewriting_document_eq call_defs)
  then have s2: "?s = (Returned (), snd ?s)"
    by (metis prod.collapse)
  have u1: "done_stack two_commits = [change_p1] @ [change_p2]"
    by (simp add: two_commits_eq)
  have u2: "Document_undo two_commits = (Returned (), one_undone)"
    by (simp add: one_undone_def two_commits_eq Document_undo_def call_defs change_p2_def
        DocumentChange_invert_def)
  have r1: "undone_stack two_undone =
      [DocumentChange_invert change_p2] @ [DocumentChange_invert change_p1]"
    by (simp add: two_undone_eq)
  have r2: "fst ?r = Returned ()"
    by (simp add: two_undone_eq Document_redo_def call_defs DocumentChange_invert_def change_p1_def)
  then have r3: "?r = (Returned (), snd ?r)"
    by (metis prod.collapse)
  have before_commit: "undone_stack rewriting_document = [DocumentChange_invert change_p2]"
    and before_undo: "undone_stack two_commits = []"
    by (simp_all add: rewriting_document_eq two_commits_eq)
  from commit_clears_undone
    [of rewriting_document "[]" "[]" JUndefined "snd ?s" two_commits "[change_p1]" change_p2
        one_undone two_undone "[DocumentChange_invert change_p2]" "DocumentChange_invert change_p1"
        "snd ?r"]
    s1 s2 u1 u2 r1 r2 r3 before_commit before_undo
  show ?thesis
    by simp
qed

text \<open>
  C8. \<^verbatim>\<open>undo\<close> with an empty \<open>done\<close> stack, and \<^verbatim>\<open>redo\<close> with an empty \<open>undone\<close>
  stack, return normally. The only effect is one line on \<^verbatim>\<open>console.error\<close>; the store,
  the stage and both stacks are unchanged.
\<close>

theorem undo_redo_exhausted:
  "(done_stack d = [] \<longrightarrow>
      Document_undo d = (Returned (), d\<lparr>console := console d @ [''No change can be undone.'']\<rparr>)) \<and>
   (undone_stack d = [] \<longrightarrow>
      Document_redo d = (Returned (), d\<lparr>console := console d @ [''No change can be redone.'']\<rparr>))"
  by (simp add: Document_undo_def Document_redo_def)

theorem undo_redo_exhausted_witness:
  "done_stack fresh_document = [] \<and> undone_stack fresh_document = [] \<and>
   Document_undo fresh_document =
     (Returned (), fresh_document\<lparr>console := [''No change can be undone.'']\<rparr>) \<and>
   Document_redo fresh_document =
     (Returned (), fresh_document\<lparr>console := [''No change can be redone.'']\<rparr>)"
proof -
  have empty: "done_stack fresh_document = []" "undone_stack fresh_document = []"
    and quiet: "console fresh_document = []"
    by (simp_all add: fresh_document_eq)
  from empty quiet undo_redo_exhausted [of fresh_document] show ?thesis
    by simp
qed

section \<open>The mirror invariant\<close>

text \<open>
  Outside a transaction and on mirrored stores, each of the four mutations is the mutation
  of both stores: the stage and the live store receive the same call, so either both
  accept it or both reject it.
\<close>

lemma create_outside:
  assumes "mirrored d" and "\<not> isTransacting d"
  shows "Document_create d nodeData =
           in_both_stores d (\<lambda>s. Data_create s nodeData) (\<lambda>s'. s' (node_id nodeData))"
  using assms
  by (cases "Data_create (data d) nodeData")
     (auto simp: Document_create_def in_both_stores_def mirrored_def and_then_def
        TransactionDocument_create_def AbstractDocument_create_def stage_mutate_def
        live_mutate_def split: option.splits)

lemma delete_outside:
  assumes "mirrored d" and "\<not> isTransacting d"
  shows "Document_delete d nodeId = in_both_stores d (\<lambda>s. Data_delete s nodeId) (\<lambda>s'. ())"
  using assms
  by (cases "Data_delete (data d) nodeId")
     (auto simp: Document_delete_def in_both_stores_def mirrored_def and_then_def
        TransactionDocument_delete_def AbstractDocument_delete_def stage_mutate_def
        live_mutate_def split: option.splits)

lemma set_outside:
  assumes "mirrored d" and "\<not> isTransacting d"
  shows "Document_set d p v = in_both_stores d (\<lambda>s. Data_set s p v) (\<lambda>s'. ())"
  using assms
  by (cases "Data_set (data d) p v")
     (auto simp: Document_set_def in_both_stores_def mirrored_def and_then_def
        TransactionDocument_set_def AbstractDocument_set_def stage_mutate_def
        live_mutate_def split: option.splits)

lemma update_outside:
  assumes "mirrored d" and "\<not> isTransacting d"
  shows "Document_update d p df = in_both_stores d (\<lambda>s. Data_update s p df) (\<lambda>s'. ())"
  using assms
  by (cases "Data_update (data d) p df")
     (auto simp: Document_update_def in_both_stores_def mirrored_def and_then_def
        TransactionDocument_update_def AbstractDocument_update_def stage_mutate_def
        live_mutate_def split: option.splits)

lemma in_both_stores_mirrored:
  "mirrored d \<Longrightarrow> \<not> isTransacting d \<Longrightarrow> mirrored (snd (in_both_stores d f ret))"
  by (auto simp: in_both_stores_def mirrored_def split: sum.splits option.splits)

lemma in_both_stores_idle:
  "idle d \<Longrightarrow> idle (snd (in_both_stores d f ret))"
  by (auto simp: in_both_stores_def idle_def split: sum.splits option.splits)

lemma constructor_idle:
  "Document_constructor initialize = (Returned (), d) \<Longrightarrow> idle d"
  by (auto simp: Document_constructor_def and_then_def idle_def split: prod.splits outcome.splits)

lemma transacting_mutations:
  assumes "isTransacting d"
  shows "snd (Document_create d nodeData) =
           (if FORCE_TRANSACTIONS d then d else snd (TransactionDocument_create d nodeData))"
    and "snd (Document_delete d nodeId) =
           (if FORCE_TRANSACTIONS d then d else snd (TransactionDocument_delete d nodeId))"
    and "snd (Document_set d p v) =
           (if FORCE_TRANSACTIONS d then d else snd (TransactionDocument_set d p v))"
    and "snd (Document_update d p df) =
           (if FORCE_TRANSACTIONS d then d else snd (TransactionDocument_update d p df))"
  using assms
  by (auto simp: Document_create_def Document_delete_def Document_set_def Document_update_def
      and_then_def split: prod.splits outcome.splits)

lemma tx_mutations_transacting:
  "isTransacting (snd (TransactionDocument_create d nodeData)) = isTransacting d"
  "isTransacting (snd (TransactionDocument_delete d nodeId)) = isTransacting d"
  "isTransacting (snd (TransactionDocument_set d p v)) = isTransacting d"
  "isTransacting (snd (TransactionDocument_update d p df)) = isTransacting d"
  by (simp_all add: TransactionDocument_create_def TransactionDocument_delete_def
      TransactionDocument_set_def TransactionDocument_update_def stage_mutate_frame)

lemma idle_consistent: "idle d \<Longrightarrow> consistent d"
  by (auto simp: consistent_def idle_def split: option.splits)

lemma staged_consistent: "staged d \<Longrightarrow> isTransacting d \<Longrightarrow> consistent d"
  by (simp add: consistent_def)

lemma consistent_cases:
  "consistent d \<Longrightarrow> (isTransacting d \<and> staged d) \<or> (\<not> isTransacting d \<and> idle d)"
  by (simp add: consistent_def split: if_splits)

lemma consistent_frame:
  "stage d' = stage d \<Longrightarrow> data d' = data d \<Longrightarrow> isTransacting d' = isTransacting d \<Longrightarrow>
   consistent d' = consistent d"
  by (cases "stage d") (auto simp: consistent_def idle_def staged_def)

lemma consistent_mutations:
  assumes "consistent d"
  shows "consistent (snd (Document_create d nodeData))"
    and "consistent (snd (Document_delete d nodeId))"
    and "consistent (snd (Document_set d p v))"
    and "consistent (snd (Document_update d p df))"
proof -
  from consistent_cases [OF assms]
  show "consistent (snd (Document_create d nodeData))"
  proof
    assume "isTransacting d \<and> staged d"
    with assms transaction_mutations_staged(1) [of d nodeData] show ?thesis
      by (simp add: transacting_mutations staged_consistent tx_mutations_transacting)
  next
    assume "\<not> isTransacting d \<and> idle d"
    then show ?thesis
      by (simp add: create_outside idle_mirrored idle_consistent in_both_stores_idle)
  qed
  from consistent_cases [OF assms]
  show "consistent (snd (Document_delete d nodeId))"
  proof
    assume "isTransacting d \<and> staged d"
    with assms transaction_mutations_staged(2) [of d nodeId] show ?thesis
      by (simp add: transacting_mutations staged_consistent tx_mutations_transacting)
  next
    assume "\<not> isTransacting d \<and> idle d"
    then show ?thesis
      by (simp add: delete_outside idle_mirrored idle_consistent in_both_stores_idle)
  qed
  from consistent_cases [OF assms]
  show "consistent (snd (Document_set d p v))"
  proof
    assume "isTransacting d \<and> staged d"
    with assms transaction_mutations_staged(3) [of d p v] show ?thesis
      by (simp add: transacting_mutations staged_consistent tx_mutations_transacting)
  next
    assume "\<not> isTransacting d \<and> idle d"
    then show ?thesis
      by (simp add: set_outside idle_mirrored idle_consistent in_both_stores_idle)
  qed
  from consistent_cases [OF assms]
  show "consistent (snd (Document_update d p df))"
  proof
    assume "isTransacting d \<and> staged d"
    with assms transaction_mutations_staged(4) [of d p df] show ?thesis
      by (simp add: transacting_mutations staged_consistent tx_mutations_transacting)
  next
    assume "\<not> isTransacting d \<and> idle d"
    then show ?thesis
      by (simp add: update_outside idle_mirrored idle_consistent in_both_stores_idle)
  qed
qed

lemma consistent_startTransaction:
  "consistent d \<Longrightarrow> consistent (snd (Document_startTransaction d beforeState))"
  by (auto simp: consistent_def idle_def staged_def Document_startTransaction_def
      split: option.splits if_splits)

lemma consistent_save:
  assumes "consistent d"
  shows "consistent (snd (TransactionDocument_save d afterState info))"
  using consistent_cases [OF assms]
proof
  assume "isTransacting d \<and> staged d"
  with save_idle [of d afterState info] show ?thesis
    by (auto intro: idle_consistent)
next
  assume "\<not> isTransacting d \<and> idle d"
  then have "snd (TransactionDocument_save d afterState info) = d"
    by (auto simp: idle_def TransactionDocument_save_def Document_saveTransaction_def
        and_then_def split: option.splits)
  with assms show ?thesis
    by simp
qed

lemma consistent_cancel:
  assumes "consistent d"
  shows "consistent (snd (TransactionDocument_cancel d))"
  using consistent_cases [OF assms]
proof
  assume "isTransacting d \<and> staged d"
  with cancel_idle [of d] show ?thesis
    by (auto intro: idle_consistent)
next
  assume "\<not> isTransacting d \<and> idle d"
  then have "snd (TransactionDocument_cancel d) = d"
    by (auto simp: idle_def TransactionDocument_cancel_def Document_cancelTransaction_def
        and_then_def split: option.splits)
  with assms show ?thesis
    by simp
qed

lemma consistent_apply:
  assumes "consistent d" and "Document_apply d c JUndefined = (Returned (), d')"
  shows "consistent d'"
proof -
  from apply_Returned [OF assms(2)] obtain s' tx t' where
    idle: "\<not> isTransacting d" and tx: "stage d = Some tx"
    and runs: "apply_each (ops c) (data d) = (Returned (), s')"
      "apply_each (ops c) (tx_data tx) = (Returned (), t')"
    and d': "d' = d\<lparr>data := s', stage := Some (tx\<lparr>tx_data := t'\<rparr>)\<rparr>"
    by auto
  from assms(1) idle tx have "tx_data tx = data d" "tx_ops tx = []"
    by (simp_all add: consistent_def idle_def)
  with runs d' idle tx show ?thesis
    by (intro idle_consistent) (simp add: idle_def)
qed

lemma consistent_undo:
  assumes "consistent d" and "Document_undo d = (Returned (), d')"
  shows "consistent d'"
proof (cases "done_stack d = []")
  case True
  with assms(2) have "d' = d\<lparr>console := console d @ [''No change can be undone.'']\<rparr>"
    by (simp add: Document_undo_def)
  then have "consistent d' = consistent d"
    by (intro consistent_frame) simp_all
  with assms(1) show ?thesis
    by simp
next
  case False
  then obtain cs c where dc: "done_stack d = cs @ [c]"
    by (metis rev_exhaust)
  let ?p = "d\<lparr>done_stack := butlast (done_stack d)\<rparr>"
  obtain r d1 where ap: "Document_apply ?p (DocumentChange_invert c) JUndefined = (r, d1)"
    by (cases "Document_apply ?p (DocumentChange_invert c) JUndefined")
  from assms(2) dc ap have r: "r = Returned ()"
    by (cases r) (auto simp: Document_undo_def and_then_def)
  from assms(2) dc ap r
  have d': "d' = d1\<lparr>undone_stack := undone_stack d1 @ [DocumentChange_invert c],
        emitted := emitted d1 @
          [DocumentChanged (DocumentChange_invert c) (JObj [(''replay'', JBool True)])]\<rparr>"
    by (auto simp: Document_undo_def and_then_def Document_notifyChangeListeners_def Let_def)
  have "consistent ?p = consistent d"
    by (intro consistent_frame) simp_all
  with assms(1) have "consistent ?p"
    by simp
  from consistent_apply [OF this] ap r have d1: "consistent d1"
    by simp
  from d' have "consistent d' = consistent d1"
    by (intro consistent_frame) simp_all
  with d1 show ?thesis
    by simp
qed

lemma consistent_redo:
  assumes "consistent d" and "Document_redo d = (Returned (), d')"
  shows "consistent d'"
proof (cases "undone_stack d = []")
  case True
  with assms(2) have "d' = d\<lparr>console := console d @ [''No change can be redone.'']\<rparr>"
    by (simp add: Document_redo_def)
  then have "consistent d' = consistent d"
    by (intro consistent_frame) simp_all
  with assms(1) show ?thesis
    by simp
next
  case False
  then obtain cs c where dc: "undone_stack d = cs @ [c]"
    by (metis rev_exhaust)
  let ?p = "d\<lparr>undone_stack := butlast (undone_stack d)\<rparr>"
  obtain r d1 where ap: "Document_apply ?p (DocumentChange_invert c) JUndefined = (r, d1)"
    by (cases "Document_apply ?p (DocumentChange_invert c) JUndefined")
  from assms(2) dc ap have r: "r = Returned ()"
    by (cases r) (auto simp: Document_redo_def and_then_def)
  from assms(2) dc ap r
  have d': "d' = d1\<lparr>done_stack := done_stack d1 @ [DocumentChange_invert c],
        emitted := emitted d1 @
          [DocumentChanged (DocumentChange_invert c) (JObj [(''replay'', JBool True)])]\<rparr>"
    by (auto simp: Document_redo_def and_then_def Document_notifyChangeListeners_def Let_def)
  have "consistent ?p = consistent d"
    by (intro consistent_frame) simp_all
  with assms(1) have "consistent ?p"
    by simp
  from consistent_apply [OF this] ap r have d1: "consistent d1"
    by simp
  from d' have "consistent d' = consistent d1"
    by (intro consistent_frame) simp_all
  with d1 show ?thesis
    by simp
qed

text \<open>Inside a transaction \<^verbatim>\<open>undo\<close> and \<^verbatim>\<open>redo\<close> touch neither store, whatever they return.\<close>

lemma undo_in_transaction:
  assumes "isTransacting d"
  shows "stage (snd (Document_undo d)) = stage d \<and> data (snd (Document_undo d)) = data d \<and>
         isTransacting (snd (Document_undo d)) = isTransacting d"
  using assms
  by (cases "rev (done_stack d)") (simp_all add: Document_undo_def Document_apply_def and_then_def)

lemma redo_in_transaction:
  assumes "isTransacting d"
  shows "stage (snd (Document_redo d)) = stage d \<and> data (snd (Document_redo d)) = data d \<and>
         isTransacting (snd (Document_redo d)) = isTransacting d"
  using assms
  by (cases "rev (undone_stack d)") (simp_all add: Document_redo_def Document_apply_def and_then_def)

lemma consistent_in_transaction:
  assumes "consistent d" and "isTransacting d"
  shows "consistent (snd (Document_undo d))" and "consistent (snd (Document_redo d))"
proof -
  have "consistent (snd (Document_undo d)) = consistent d"
    using undo_in_transaction [OF assms(2)] by (intro consistent_frame) simp_all
  with assms(1) show "consistent (snd (Document_undo d))"
    by simp
  have "consistent (snd (Document_redo d)) = consistent d"
    using redo_in_transaction [OF assms(2)] by (intro consistent_frame) simp_all
  with assms(1) show "consistent (snd (Document_redo d))"
    by simp
qed

lemma consistent_documentDidLoad:
  "consistent d \<Longrightarrow> \<not> isTransacting d \<Longrightarrow> consistent (snd (Document_documentDidLoad d))"
  by (auto simp: consistent_def idle_def Document_documentDidLoad_def TransactionDocument_reset_def
      split: option.splits)

lemma try_finally_snd: "snd (try_finally r cleanup) = snd (cleanup (snd r))"
  by (simp add: try_finally_def split: prod.splits outcome.splits)

lemma consistent_finish:
  "consistent d \<Longrightarrow> consistent (snd (TransactionDocument_finish d))"
  by (simp add: TransactionDocument_finish_def consistent_cancel)

lemma startTransaction_Returned:
  "Document_startTransaction d b = (Returned (), d0) \<Longrightarrow> isTransacting d0"
  by (auto simp: Document_startTransaction_def split: if_splits option.splits)

text \<open>
  A call of \<^verbatim>\<open>transaction\<close> keeps the document consistent when the transformation does,
  whether the transformation returns or throws, and whether it leaves the transaction
  open, saves it or cancels it.
\<close>

lemma consistent_transaction:
  assumes d: "consistent d"
    and t: "\<And>d0. consistent d0 \<Longrightarrow> isTransacting d0 \<Longrightarrow> consistent (snd (t d0))"
    and args: "arg_transformation args = Some t"
  shows "consistent (snd (Document_transaction d args))"
proof -
  obtain r0 d0 where start: "Document_startTransaction d (arg_beforeState args) = (r0, d0)"
    by (cases "Document_startTransaction d (arg_beforeState args)")
  from consistent_startTransaction [OF d, of "arg_beforeState args"] start
  have d0: "consistent d0"
    by simp
  show ?thesis
  proof (cases r0)
    case (Thrown e)
    with start args d0 show ?thesis
      by (simp add: Document_transaction_def and_then_def)
  next
    case (Returned u)
    with start have active: "isTransacting d0"
      by (auto intro: startTransaction_Returned)
    obtain r1 d1 where run: "t d0 = (r1, d1)"
      by (cases "t d0")
    from t [OF d0 active] run have d1: "consistent d1"
      by simp
    let ?body = "and_then (t d0)
        (\<lambda>result d1.
           (case transaction_afterState (arg_beforeState args) result of
              Inl e \<Rightarrow> (Thrown e, d1)
            | Inr afterState \<Rightarrow>
                if isTransacting d1
                then TransactionDocument_save d1 afterState (arg_eventData args)
                else (Returned (), d1)))"
    have "consistent (snd ?body)"
      using run d1
      by (cases r1)
         (auto simp: and_then_def consistent_save split: sum.splits)
    then have "consistent (snd (try_finally ?body TransactionDocument_finish))"
      by (simp add: try_finally_snd consistent_finish)
    with start Returned args show ?thesis
      by (simp add: Document_transaction_def and_then_def)
  qed
qed

lemma create_all_consistent:
  "consistent d \<Longrightarrow> isTransacting d \<Longrightarrow> consistent (snd (create_all ns d))"
proof (induction ns arbitrary: d)
  case Nil
  then show ?case by simp
next
  case (Cons n ns)
  obtain r d1 where step: "TransactionDocument_create d n = (r, d1)"
    by (cases "TransactionDocument_create d n")
  from Cons.prems consistent_cases [of d] have "staged d"
    by blast
  from transaction_mutations_staged(1) [OF this Cons.prems(2), of n]
    tx_mutations_transacting(1) [of d n] step Cons.prems(2)
  have d1: "consistent d1" "isTransacting d1"
    by (simp_all add: staged_consistent)
  show ?case
  proof (cases r)
    case (Returned u)
    with step Cons.IH [OF d1] show ?thesis
      by (simp add: and_then_def)
  next
    case (Thrown e)
    with step d1 show ?thesis
      by (simp add: and_then_def)
  qed
qed

lemma consistent_loadSeed:
  assumes "consistent d"
  shows "consistent (snd (Document_loadSeed d seed))"
  unfolding Document_loadSeed_def
proof (rule consistent_transaction [OF assms])
  show "arg_transformation (Args1 (Some (\<lambda>tx. and_then (TransactionDocument_loadSeed tx seed)
                             (\<lambda>_ d1. (Returned None, d1))))) =
        Some (\<lambda>tx. and_then (TransactionDocument_loadSeed tx seed) (\<lambda>_ d1. (Returned None, d1)))"
    by simp
next
  fix d0
  assume "consistent d0" "isTransacting d0"
  from create_all_consistent [OF this, of "nodes seed"]
  show "consistent (snd (and_then (TransactionDocument_loadSeed d0 seed)
                             (\<lambda>_ d1. (Returned None, d1))))"
    by (cases "create_all (nodes seed) d0")
       (auto simp: and_then_def TransactionDocument_loadSeed_def split: outcome.splits)
qed

text \<open>Every document that arises is in a consistent state.\<close>

lemma reachable_consistent: "reachable d \<Longrightarrow> consistent d"
proof (induction rule: reachable.induct)
  case (constructed initialize d)
  then show ?case
    by (intro idle_consistent constructor_idle)
next
  case (forced d b)
  have "consistent (d\<lparr>FORCE_TRANSACTIONS := b\<rparr>) = consistent d"
    by (intro consistent_frame) simp_all
  with forced show ?case
    by simp
next
  case (tx_created d nodeData)
  with consistent_cases [of d] transaction_mutations_staged(1) [of d nodeData] show ?case
    by (simp add: staged_consistent tx_mutations_transacting)
next
  case (tx_deleted d nodeId)
  with consistent_cases [of d] transaction_mutations_staged(2) [of d nodeId] show ?case
    by (simp add: staged_consistent tx_mutations_transacting)
next
  case (tx_set d p v)
  with consistent_cases [of d] transaction_mutations_staged(3) [of d p v] show ?case
    by (simp add: staged_consistent tx_mutations_transacting)
next
  case (tx_updated d p df)
  with consistent_cases [of d] transaction_mutations_staged(4) [of d p df] show ?case
    by (simp add: staged_consistent tx_mutations_transacting)
next
  case (created d nodeData)
  then show ?case by (simp add: consistent_mutations(1))
next
  case (deleted d nodeId)
  then show ?case by (simp add: consistent_mutations(2))
next
  case (was_set d p v)
  then show ?case by (simp add: consistent_mutations(3))
next
  case (updated d p df)
  then show ?case by (simp add: consistent_mutations(4))
next
  case (started d beforeState)
  then show ?case by (simp add: consistent_startTransaction)
next
  case (saved d afterState info)
  then show ?case by (simp add: consistent_save)
next
  case (cancelled d)
  then show ?case by (simp add: consistent_cancel)
next
  case (undone d d')
  then show ?case using consistent_undo [of d d'] by blast
next
  case (redone d d')
  then show ?case using consistent_redo [of d d'] by blast
next
  case (seeded d seed)
  then show ?case by (simp add: consistent_loadSeed)
next
  case (loaded d)
  then show ?case by (simp add: consistent_documentDidLoad)
next
  case (undo_refused d)
  then show ?case by (simp add: consistent_in_transaction(1))
next
  case (redo_refused d)
  then show ?case by (simp add: consistent_in_transaction(2))
qed

text \<open>
  In particular every transaction that arises has the stage ahead of the live store by
  exactly its buffer, the state from which a commit cannot fail.
\<close>

lemma reachable_staged: "reachable d \<Longrightarrow> isTransacting d \<Longrightarrow> staged d"
  using reachable_consistent [of d] consistent_cases [of d] by blast

lemma fresh_reachable: "reachable fresh_document"
proof -
  have "Document_constructor empty_initialize = (Returned (), fresh_document)"
    by (simp add: fresh_document_eq empty_initialize_def Document_constructor_def and_then_def)
  then show ?thesis
    by (rule reachable.constructed)
qed

text \<open>
  The document with the history that cannot be undone arises from calls that all return:
  the transaction is the sequence \<^verbatim>\<open>startTransaction\<close>, \<^verbatim>\<open>tx.delete\<close> twice, \<^verbatim>\<open>tx.save\<close>.
\<close>

lemma refilled_reachable: "reachable refilled_document"
proof -
  let ?s = "snd (Document_startTransaction two_nodes (Some []))"
  let ?a = "snd (TransactionDocument_delete ?s ''p1'')"
  let ?b = "snd (TransactionDocument_delete ?a ''p2'')"
  have "reachable two_nodes"
    unfolding two_nodes_def by (intro reachable.created fresh_reachable)
  then have s: "reachable ?s"
    by (rule reachable.started)
  have ts: "isTransacting ?s"
    by (simp add: two_nodes_eq fresh_document_eq Document_startTransaction_def)
  from s ts have a: "reachable ?a"
    by (rule reachable.tx_deleted)
  from ts have ta: "isTransacting ?a"
    by (simp add: tx_mutations_transacting)
  from a ta have "reachable ?b"
    by (rule reachable.tx_deleted)
  then have "reachable (snd (TransactionDocument_save ?b [] (JObj [])))"
    by (rule reachable.saved)
  moreover have "snd (TransactionDocument_save ?b [] (JObj [])) = emptied_document"
    by (simp add: emptied_document_eq two_nodes_eq fresh_document_eq call_defs)
  ultimately have "reachable emptied_document"
    by simp
  then show ?thesis
    unfolding refilled_document_def by (rule reachable.created)
qed

text \<open>
  C3, as stated: whenever no transaction is active, the stage's store and the live store
  hold identical data. It fails after a replay that throws midway, and after
  \<^verbatim>\<open>documentDidLoad\<close> inside a transaction.

    \<^item> \<open>refilled_document\<close> arises from calls that all return, is not in a transaction and
      is mirrored. \<^verbatim>\<open>undo\<close> throws on it (the inverse of the deletion creates \<open>p2\<close>, then
      \<open>p1\<close>, which exists). No transaction is active afterwards, the stage holds \<open>p2\<close>
      and the live store does not.

    \<^item> \<open>writing_document\<close> is in the transaction that has created \<open>p1\<close>.
      \<^verbatim>\<open>documentDidLoad\<close> returns on it, and so does the commit that follows. No
      transaction is active afterwards, the stage holds \<open>p1\<close> and the live store does
      not.
\<close>

theorem mirror_invariant_counterexample:
  "reachable refilled_document \<and> \<not> isTransacting refilled_document \<and>
   mirrored refilled_document \<and>
   fst (Document_undo refilled_document) = Thrown (InvalidOperation ''node exists'') \<and>
   \<not> isTransacting (snd (Document_undo refilled_document)) \<and>
   stage_node (snd (Document_undo refilled_document)) ''p2'' = Some paragraph_p2 \<and>
   data (snd (Document_undo refilled_document)) ''p2'' = None \<and>
   isTransacting writing_document \<and>
   fst (Document_documentDidLoad writing_document) = Returned () \<and>
   fst (TransactionDocument_save reloaded_document [] JUndefined) = Returned () \<and>
   \<not> isTransacting (snd (TransactionDocument_save reloaded_document [] JUndefined)) \<and>
   stage_node (snd (TransactionDocument_save reloaded_document [] JUndefined)) ''p1'' =
     Some paragraph_p1 \<and>
   data (snd (TransactionDocument_save reloaded_document [] JUndefined)) ''p1'' = None"
proof -
  have "\<not> isTransacting refilled_document \<and> mirrored refilled_document"
    by (simp add: refilled_document_eq emptied_document_eq fresh_document_eq mirrored_def)
  moreover have "isTransacting writing_document \<and>
      fst (Document_documentDidLoad writing_document) = Returned ()"
    by (simp add: writing_document_eq Document_documentDidLoad_def)
  moreover have "\<not> isTransacting (snd (Document_undo refilled_document)) \<and>
      stage_node (snd (Document_undo refilled_document)) ''p2'' = Some paragraph_p2 \<and>
      data (snd (Document_undo refilled_document)) ''p2'' = None"
    by (simp only: undo_refilled snd_conv)
       (simp add: stage_node_def refilled_document_eq emptied_document_eq fresh_document_eq)
  moreover have "\<not> isTransacting (snd (TransactionDocument_save reloaded_document [] JUndefined)) \<and>
      stage_node (snd (TransactionDocument_save reloaded_document [] JUndefined)) ''p1'' =
        Some paragraph_p1 \<and>
      data (snd (TransactionDocument_save reloaded_document [] JUndefined)) ''p1'' = None"
    by (simp only: reloaded_saved snd_conv) (simp add: stage_node_def writing_document_eq)
  ultimately show ?thesis
    using refilled_reachable by (simp add: undo_refilled reloaded_saved)
qed

text \<open>
  C3, amended. In every document that arises from a constructed one by the calls of the
  interface, leaving out an \<^verbatim>\<open>undo\<close> or \<^verbatim>\<open>redo\<close> outside a transaction that throws and
  \<^verbatim>\<open>documentDidLoad\<close> inside a transaction, and that is not in a transaction, the
  stage's store and the live store hold the same data. And on a document that is not in a
  transaction and whose stage mirrors the live store, each of \<^verbatim>\<open>create\<close>, \<^verbatim>\<open>delete\<close>,
  \<^verbatim>\<open>set\<close> and \<^verbatim>\<open>update\<close> is the mutation of both stores: it is refused in
  force-transactions mode; it throws the store's error and leaves the document as it was
  when the store rejects the mutation; and otherwise it returns with the mutation applied
  to the live store and to the stage alike, nothing buffered and nothing else changed. In
  every case the stage mirrors the live store afterwards.
\<close>

theorem mirror_invariant:
  "(reachable d \<longrightarrow> \<not> isTransacting d \<longrightarrow> map_option tx_data (stage d) = Some (data d)) \<and>
   (mirrored d \<longrightarrow> \<not> isTransacting d \<longrightarrow>
      Document_create d nodeData =
        in_both_stores d (\<lambda>s. Data_create s nodeData) (\<lambda>s'. s' (node_id nodeData)) \<and>
      Document_delete d nodeId = in_both_stores d (\<lambda>s. Data_delete s nodeId) (\<lambda>s'. ()) \<and>
      Document_set d p v = in_both_stores d (\<lambda>s. Data_set s p v) (\<lambda>s'. ()) \<and>
      Document_update d p df = in_both_stores d (\<lambda>s. Data_update s p df) (\<lambda>s'. ()) \<and>
      mirrored (snd (Document_create d nodeData)) \<and>
      mirrored (snd (Document_delete d nodeId)) \<and>
      mirrored (snd (Document_set d p v)) \<and>
      mirrored (snd (Document_update d p df)))"
proof -
  have at_rest: "map_option tx_data (stage d) = Some (data d)"
    if "reachable d" and "\<not> isTransacting d"
    using that reachable_consistent [of d] consistent_cases [of d]
    by (auto simp: idle_def split: option.splits)
  have steps:
    "Document_create d nodeData =
        in_both_stores d (\<lambda>s. Data_create s nodeData) (\<lambda>s'. s' (node_id nodeData)) \<and>
     Document_delete d nodeId = in_both_stores d (\<lambda>s. Data_delete s nodeId) (\<lambda>s'. ()) \<and>
     Document_set d p v = in_both_stores d (\<lambda>s. Data_set s p v) (\<lambda>s'. ()) \<and>
     Document_update d p df = in_both_stores d (\<lambda>s. Data_update s p df) (\<lambda>s'. ()) \<and>
     mirrored (snd (Document_create d nodeData)) \<and>
     mirrored (snd (Document_delete d nodeId)) \<and>
     mirrored (snd (Document_set d p v)) \<and>
     mirrored (snd (Document_update d p df))"
    if m: "mirrored d" and i: "\<not> isTransacting d"
    by (simp add: create_outside [OF m i] delete_outside [OF m i] set_outside [OF m i]
        update_outside [OF m i] in_both_stores_mirrored [OF m i])
  from at_rest steps show ?thesis
    by blast
qed

theorem mirror_invariant_witness:
  "reachable (snd (Document_create fresh_document paragraph_p1)) \<and>
   \<not> isTransacting (snd (Document_create fresh_document paragraph_p1)) \<and>
   map_option tx_data (stage (snd (Document_create fresh_document paragraph_p1))) =
     Some (data (snd (Document_create fresh_document paragraph_p1))) \<and>
   data (snd (Document_create fresh_document paragraph_p1)) = [''p1'' \<mapsto> paragraph_p1] \<and>
   mirrored one_commit \<and> \<not> isTransacting one_commit \<and>
   Document_create one_commit paragraph_p2 =
     (Returned (Some paragraph_p2),
      one_commit\<lparr>data := [''p1'' \<mapsto> paragraph_p1, ''p2'' \<mapsto> paragraph_p2],
        stage := Some \<lparr>tx_data = [''p1'' \<mapsto> paragraph_p1, ''p2'' \<mapsto> paragraph_p2],
                       tx_ops = [], tx_before = []\<rparr>\<rparr>) \<and>
   Document_create one_commit paragraph_p1 =
     (Thrown (InvalidOperation ''node exists''), one_commit) \<and>
   Document_delete one_commit ''p1'' =
     (Returned (),
      one_commit\<lparr>data := Map.empty,
        stage := Some \<lparr>tx_data = Map.empty, tx_ops = [], tx_before = []\<rparr>\<rparr>) \<and>
   Document_delete one_commit ''p2'' =
     (Thrown (InvalidOperation ''unknown node''), one_commit) \<and>
   Document_set one_commit (''p1'', ''content'') (JStr ''Hi'') =
     (Returned (),
      one_commit\<lparr>data := [''p1'' \<mapsto> paragraph_p1\<lparr>properties := [(''content'', JStr ''Hi'')]\<rparr>],
        stage := Some
          \<lparr>tx_data = [''p1'' \<mapsto> paragraph_p1\<lparr>properties := [(''content'', JStr ''Hi'')]\<rparr>],
           tx_ops = [], tx_before = []\<rparr>\<rparr>) \<and>
   Document_update one_commit (''p1'', ''content'') (StringSplice 6 [] ''brave '') =
     (Returned (),
      one_commit\<lparr>data :=
          [''p1'' \<mapsto> paragraph_p1\<lparr>properties := [(''content'', JStr ''Hello brave World'')]\<rparr>],
        stage := Some
          \<lparr>tx_data = [''p1'' \<mapsto> paragraph_p1\<lparr>properties := [(''content'', JStr ''Hello brave World'')]\<rparr>],
           tx_ops = [], tx_before = []\<rparr>\<rparr>) \<and>
   mirrored (snd (Document_create one_commit paragraph_p2)) \<and>
   mirrored (snd (Document_delete one_commit ''p1'')) \<and>
   mirrored (snd (Document_set one_commit (''p1'', ''content'') (JStr ''Hi''))) \<and>
   mirrored (snd (Document_update one_commit (''p1'', ''content'') (StringSplice 6 [] ''brave '')))"
proof -
  let ?d = "snd (Document_create fresh_document paragraph_p1)"
  have r: "reachable ?d"
    by (intro reachable.created fresh_reachable)
  have q: "\<not> isTransacting ?d" and s: "data ?d = [''p1'' \<mapsto> paragraph_p1]"
    by (simp_all add: fresh_document_eq Document_create_def call_defs)
  have m: "mirrored one_commit" and i: "\<not> isTransacting one_commit"
    by (simp_all add: one_commit_eq mirrored_def)
  have c: "in_both_stores one_commit (\<lambda>s. Data_create s paragraph_p2) (\<lambda>s'. s' (node_id paragraph_p2)) =
     (Returned (Some paragraph_p2),
      one_commit\<lparr>data := [''p1'' \<mapsto> paragraph_p1, ''p2'' \<mapsto> paragraph_p2],
        stage := Some \<lparr>tx_data = [''p1'' \<mapsto> paragraph_p1, ''p2'' \<mapsto> paragraph_p2],
                       tx_ops = [], tx_before = []\<rparr>\<rparr>)"
    by (simp add: one_commit_eq in_both_stores_def Data_create_def)
  have c': "in_both_stores one_commit (\<lambda>s. Data_create s paragraph_p1) (\<lambda>s'. s' (node_id paragraph_p1)) =
     (Thrown (InvalidOperation ''node exists''), one_commit)"
    by (simp add: one_commit_eq in_both_stores_def Data_create_def)
  have e: "in_both_stores one_commit (\<lambda>s. Data_delete s ''p1'') (\<lambda>s'. ()) =
     (Returned (),
      one_commit\<lparr>data := Map.empty,
        stage := Some \<lparr>tx_data = Map.empty, tx_ops = [], tx_before = []\<rparr>\<rparr>)"
    by (simp add: one_commit_eq in_both_stores_def Data_delete_def)
  have e': "in_both_stores one_commit (\<lambda>s. Data_delete s ''p2'') (\<lambda>s'. ()) =
     (Thrown (InvalidOperation ''unknown node''), one_commit)"
    by (simp add: one_commit_eq in_both_stores_def Data_delete_def)
  have t: "in_both_stores one_commit (\<lambda>s. Data_set s (''p1'', ''content'') (JStr ''Hi'')) (\<lambda>s'. ()) =
     (Returned (),
      one_commit\<lparr>data := [''p1'' \<mapsto> paragraph_p1\<lparr>properties := [(''content'', JStr ''Hi'')]\<rparr>],
        stage := Some
          \<lparr>tx_data = [''p1'' \<mapsto> paragraph_p1\<lparr>properties := [(''content'', JStr ''Hi'')]\<rparr>],
           tx_ops = [], tx_before = []\<rparr>\<rparr>)"
    by (simp add: one_commit_eq in_both_stores_def Data_set_def paragraph_p1_def obj_set_def)
  have u: "in_both_stores one_commit
       (\<lambda>s. Data_update s (''p1'', ''content'') (StringSplice 6 [] ''brave '')) (\<lambda>s'. ()) =
     (Returned (),
      one_commit\<lparr>data :=
          [''p1'' \<mapsto> paragraph_p1\<lparr>properties := [(''content'', JStr ''Hello brave World'')]\<rparr>],
        stage := Some
          \<lparr>tx_data = [''p1'' \<mapsto> paragraph_p1\<lparr>properties := [(''content'', JStr ''Hello brave World'')]\<rparr>],
           tx_ops = [], tx_before = []\<rparr>\<rparr>)"
    by (simp add: one_commit_eq in_both_stores_def Data_update_def paragraph_p1_def splice_def
        obj_set_def)
  note at_rest = mirror_invariant [of ?d, THEN conjunct1, rule_format, OF r q]
  note steps = mirror_invariant [of one_commit paragraph_p2 "''p1''" "(''p1'', ''content'')"
      "JStr ''Hi''" "StringSplice 6 [] ''brave ''", THEN conjunct2, rule_format, OF m i]
  note refused = mirror_invariant [of one_commit paragraph_p1 "''p2''" "(''p1'', ''content'')"
      "JStr ''Hi''" "StringSplice 6 [] ''brave ''", THEN conjunct2, rule_format, OF m i]
  have cr: "Document_create one_commit paragraph_p2 =
     (Returned (Some paragraph_p2),
      one_commit\<lparr>data := [''p1'' \<mapsto> paragraph_p1, ''p2'' \<mapsto> paragraph_p2],
        stage := Some \<lparr>tx_data = [''p1'' \<mapsto> paragraph_p1, ''p2'' \<mapsto> paragraph_p2],
                       tx_ops = [], tx_before = []\<rparr>\<rparr>)"
    using steps [THEN conjunct1] c by simp
  have cr': "Document_create one_commit paragraph_p1 =
     (Thrown (InvalidOperation ''node exists''), one_commit)"
    using refused [THEN conjunct1] c' by simp
  have de: "Document_delete one_commit ''p1'' =
     (Returned (),
      one_commit\<lparr>data := Map.empty,
        stage := Some \<lparr>tx_data = Map.empty, tx_ops = [], tx_before = []\<rparr>\<rparr>)"
    using steps [THEN conjunct2, THEN conjunct1] e by simp
  have de': "Document_delete one_commit ''p2'' =
     (Thrown (InvalidOperation ''unknown node''), one_commit)"
    using refused [THEN conjunct2, THEN conjunct1] e' by simp
  have se: "Document_set one_commit (''p1'', ''content'') (JStr ''Hi'') =
     (Returned (),
      one_commit\<lparr>data := [''p1'' \<mapsto> paragraph_p1\<lparr>properties := [(''content'', JStr ''Hi'')]\<rparr>],
        stage := Some
          \<lparr>tx_data = [''p1'' \<mapsto> paragraph_p1\<lparr>properties := [(''content'', JStr ''Hi'')]\<rparr>],
           tx_ops = [], tx_before = []\<rparr>\<rparr>)"
    using steps [THEN conjunct2, THEN conjunct2, THEN conjunct1] t by simp
  have up: "Document_update one_commit (''p1'', ''content'') (StringSplice 6 [] ''brave '') =
     (Returned (),
      one_commit\<lparr>data :=
          [''p1'' \<mapsto> paragraph_p1\<lparr>properties := [(''content'', JStr ''Hello brave World'')]\<rparr>],
        stage := Some
          \<lparr>tx_data = [''p1'' \<mapsto> paragraph_p1\<lparr>properties := [(''content'', JStr ''Hello brave World'')]\<rparr>],
           tx_ops = [], tx_before = []\<rparr>\<rparr>)"
    using steps [THEN conjunct2, THEN conjunct2, THEN conjunct2, THEN conjunct1] u by simp
  have mi: "mirrored (snd (Document_create one_commit paragraph_p2)) \<and>
      mirrored (snd (Document_delete one_commit ''p1'')) \<and>
      mirrored (snd (Document_set one_commit (''p1'', ''content'') (JStr ''Hi''))) \<and>
      mirrored (snd (Document_update one_commit (''p1'', ''content'') (StringSplice 6 [] ''brave '')))"
    by (rule steps [THEN conjunct2, THEN conjunct2, THEN conjunct2, THEN conjunct2])
  from r q s at_rest m i cr cr' de de' se up mi show ?thesis
    by blast
qed

section \<open>The after state of a transaction\<close>

lemma afterState_loop_Some:
  "afterState_loop ks B (Some R) acc =
     Inr (fold (\<lambda>k acc. obj_set acc k (if truthy (obj_get R k) then obj_get R k else obj_get B k))
            ks acc)"
  by (induction ks arbitrary: acc) simp_all

lemma fold_obj_set_keys:
  "distinct ks \<Longrightarrow> set ks \<inter> fst ` set acc = {} \<Longrightarrow>
   map fst (fold (\<lambda>k acc. obj_set acc k (f k)) ks acc) = map fst acc @ ks"
proof (induction ks arbitrary: acc)
  case Nil
  then show ?case by simp
next
  case (Cons k ks)
  have keys: "map fst (obj_set acc k (f k)) = map fst acc @ [k]"
    using Cons.prems(2) by (simp add: obj_set_def update_keys image_iff)
  have "fst ` set (obj_set acc k (f k)) = insert k (fst ` set acc)"
    by (simp add: obj_set_def dom_update)
  with Cons.prems have "set ks \<inter> fst ` set (obj_set acc k (f k)) = {}"
    by auto
  with Cons.IH [of "obj_set acc k (f k)"] Cons.prems(1) keys show ?case
    by simp
qed

lemma fold_obj_set_lookup:
  "distinct ks \<Longrightarrow>
   map_of (fold (\<lambda>k acc. obj_set acc k (f k)) ks acc) k =
     (if k \<in> set ks then Some (f k) else map_of acc k)"
  by (induction ks arbitrary: acc) (auto simp: obj_set_def update_conv')

lemma transaction_afterState_Some:
  "transaction_afterState (Some B) (Some R) =
     Inr (fold (\<lambda>k acc. obj_set acc k (if truthy (obj_get R k) then obj_get R k else obj_get B k))
            (map fst B) [])"
  by (simp add: transaction_afterState_def afterState_loop_Some)

text \<open>
  C4, as stated: a key of \<open>beforeState\<close> that is present in the returned mapping takes the
  returned value. It fails in two ways.

    \<^item> Where the returned value is falsy: the transformation returns \<^verbatim>\<open>{selection: null}\<close>
      for the before state \<^verbatim>\<open>{selection: 'sel0'}\<close>, and the committed after state is
      \<^verbatim>\<open>{selection: 'sel0'}\<close>.

    \<^item> Where the transformation has committed the transaction itself: it saves with the
      after state \<^verbatim>\<open>{selection: 'mine', zzz: 1}\<close> and then returns
      \<^verbatim>\<open>{selection: 'sel1'}\<close>; the transaction is closed when it returns, the call of
      \<^verbatim>\<open>transaction\<close> returns, and the committed after state is the transformation's
      own, with a key that the before state \<^verbatim>\<open>{selection: 'sel0'}\<close> does not have and
      without the returned value.
\<close>

theorem transaction_afterState_counterexample:
  "clear_selection started_document =
     (Returned (Some [(''selection'', JNull)]), started_document) \<and>
   map after (done_stack (snd (Document_transaction fresh_document
       (Args2 (Some [(''selection'', JStr ''sel0'')]) (Some clear_selection))))) =
     [[(''selection'', JStr ''sel0'')]] \<and>
   fst (save_own started_document) = Returned (Some [(''selection'', JStr ''sel1'')]) \<and>
   \<not> isTransacting (snd (save_own started_document)) \<and>
   fst (Document_transaction fresh_document
       (Args2 (Some [(''selection'', JStr ''sel0'')]) (Some save_own))) = Returned () \<and>
   map after (done_stack (snd (Document_transaction fresh_document
       (Args2 (Some [(''selection'', JStr ''sel0'')]) (Some save_own))))) =
     [[(''selection'', JStr ''mine''), (''zzz'', JNum 1)]]"
  by (simp add: clear_selection_def save_own_def started_document_eq fresh_document_eq call_defs
      obj_get_def obj_set_def)

text \<open>
  C4, amended. Let \<^verbatim>\<open>transaction\<close> be called with the before state \<open>B\<close> (an object, its
  keys distinct) and a transformation that returns the mapping \<open>R\<close> and leaves the
  transaction open (it has neither saved nor cancelled it), and let the call return. Then
  exactly one change has been pushed, and its after state has exactly the keys of \<open>B\<close>,
  in the order of \<open>B\<close>; each key \<open>k\<close> maps to \<open>R[k]\<close> when \<open>R[k]\<close> is truthy and to
  \<open>B[k]\<close> otherwise, that is when \<open>k\<close> is absent from \<open>R\<close> or \<open>R[k]\<close> is one of
  \<^verbatim>\<open>undefined\<close>, \<^verbatim>\<open>null\<close>, \<^verbatim>\<open>false\<close>, \<^verbatim>\<open>0\<close>, \<^verbatim>\<open>''\<close>. Keys of \<open>R\<close> that are not keys
  of \<open>B\<close> are dropped.
\<close>

theorem transaction_afterState_merge:
  assumes wf: "distinct (map fst B)"
    and args: "arg_beforeState args = Some B" "arg_transformation args = Some transformation"
    and result: "transformation (snd (Document_startTransaction d (Some B))) = (Returned (Some R), d1)"
    and active: "isTransacting d1"
    and commit: "Document_transaction d args = (Returned (), d2)"
  shows "butlast (done_stack d2) = done_stack d1 \<and> done_stack d2 \<noteq> [] \<and>
         map fst (after (last (done_stack d2))) = map fst B \<and>
         (\<forall>k \<in> set (map fst B).
            map_of (after (last (done_stack d2))) k =
              Some (if truthy (obj_get R k) then obj_get R k else obj_get B k))"
proof -
  let ?A = "fold (\<lambda>k acc. obj_set acc k (if truthy (obj_get R k) then obj_get R k else obj_get B k))
            (map fst B) []"
  obtain r0 d0 where start: "Document_startTransaction d (Some B) = (r0, d0)"
    by (cases "Document_startTransaction d (Some B)")
  from commit args start have r0: "r0 = Returned ()"
    by (cases r0) (auto simp: Document_transaction_def and_then_def)
  from result start have tr: "transformation d0 = (Returned (Some R), d1)"
    by simp
  from commit args start r0 tr active
  have fin: "try_finally (TransactionDocument_save d1 ?A (arg_eventData args))
      TransactionDocument_finish = (Returned (), d2)"
    by (simp add: Document_transaction_def and_then_def transaction_afterState_Some)
  obtain r3 d3 where save: "TransactionDocument_save d1 ?A (arg_eventData args) = (r3, d3)"
    by (cases "TransactionDocument_save d1 ?A (arg_eventData args)")
  from try_finally_Returned [OF fin] save
  have saved: "TransactionDocument_save d1 ?A (arg_eventData args) = (Returned (), d3)"
    and cl: "TransactionDocument_finish d3 = (Returned (), d2)"
    by simp_all
  from save_Returned [OF saved] obtain tx :: transaction_document where
    d3: "done_stack d3 = done_stack d1 @ [\<lparr>ops = tx_ops tx, before = tx_before tx, after = ?A\<rparr>]"
      "\<not> isTransacting d3"
    by auto
  from cl d3 have "d2 = d3"
    by (simp add: TransactionDocument_finish_def)
  moreover have "map fst ?A = map fst B"
    using fold_obj_set_keys [OF wf, of "[]"] by simp
  moreover have "\<forall>k \<in> set (map fst B).
      map_of ?A k = Some (if truthy (obj_get R k) then obj_get R k else obj_get B k)"
    using fold_obj_set_lookup [OF wf, of _ "[]"] by simp
  ultimately show ?thesis
    using d3(1) by simp
qed

theorem transaction_afterState_merge_witness:
  "distinct (map fst [(''selection'', JStr ''sel0''), (''scroll'', JNum 7)]) \<and>
   move_selection (snd (Document_startTransaction fresh_document
        (Some [(''selection'', JStr ''sel0''), (''scroll'', JNum 7)]))) =
     (Returned (Some [(''selection'', JStr ''sel1''), (''scroll'', JNum 0), (''extra'', JBool True)]),
      snd (Document_startTransaction fresh_document
        (Some [(''selection'', JStr ''sel0''), (''scroll'', JNum 7)]))) \<and>
   isTransacting (snd (Document_startTransaction fresh_document
        (Some [(''selection'', JStr ''sel0''), (''scroll'', JNum 7)]))) \<and>
   fst (Document_transaction fresh_document
        (Args3 (Some [(''selection'', JStr ''sel0''), (''scroll'', JNum 7)]) JUndefined
           (Some move_selection))) = Returned () \<and>
   map fst (after (last (done_stack (snd (Document_transaction fresh_document
        (Args3 (Some [(''selection'', JStr ''sel0''), (''scroll'', JNum 7)]) JUndefined
           (Some move_selection))))))) =
     map fst [(''selection'', JStr ''sel0''), (''scroll'', JNum 7)] \<and>
   map after (done_stack (snd (Document_transaction fresh_document
        (Args3 (Some [(''selection'', JStr ''sel0''), (''scroll'', JNum 7)]) JUndefined
           (Some move_selection))))) =
     [[(''selection'', JStr ''sel1''), (''scroll'', JNum 7)]]"
proof -
  let ?B = "[(''selection'', JStr ''sel0''), (''scroll'', JNum 7)]"
  let ?R = "[(''selection'', JStr ''sel1''), (''scroll'', JNum 0), (''extra'', JBool True)]"
  let ?args = "Args3 (Some ?B) JUndefined (Some move_selection)"
  let ?d1 = "snd (Document_startTransaction fresh_document (Some ?B))"
  let ?t = "Document_transaction fresh_document ?args"
  have wf: "distinct (map fst ?B)"
    by simp
  have args: "arg_beforeState ?args = Some ?B" "arg_transformation ?args = Some move_selection"
    by simp_all
  have result: "move_selection ?d1 = (Returned (Some ?R), ?d1)"
    by (simp add: move_selection_def)
  have active: "isTransacting ?d1"
    by (simp add: fresh_document_eq Document_startTransaction_def)
  have ret: "fst ?t = Returned ()"
    by (simp add: move_selection_def fresh_document_eq call_defs obj_get_def obj_set_def)
  then have commit: "?t = (Returned (), snd ?t)"
    by (metis prod.collapse)
  note merged = transaction_afterState_merge [OF wf args result active commit]
  have keys: "map fst (after (last (done_stack (snd ?t)))) = map fst ?B"
    by (rule merged [THEN conjunct2, THEN conjunct2, THEN conjunct1])
  have ev: "map after (done_stack (snd ?t)) =
      [[(''selection'', JStr ''sel1''), (''scroll'', JNum 7)]]"
    by (simp add: move_selection_def fresh_document_eq call_defs obj_get_def obj_set_def)
  from wf result active ret keys ev show ?thesis
    by blast
qed

section \<open>Loading a snapshot\<close>

lemma create_all_frame:
  "isTransacting (snd (create_all ns d)) = isTransacting d \<and>
   done_stack (snd (create_all ns d)) = done_stack d"
proof (induction ns arbitrary: d)
  case Nil
  then show ?case by simp
next
  case (Cons n ns)
  obtain r d1 where step: "TransactionDocument_create d n = (r, d1)"
    by (cases "TransactionDocument_create d n")
  with stage_mutate_frame [of d "\<lambda>s. Data_create s n"]
  have fr: "isTransacting d1 = isTransacting d" "done_stack d1 = done_stack d"
    by (simp_all add: TransactionDocument_create_def)
  show ?case
  proof (cases r)
    case (Returned u)
    with step fr Cons.IH [of d1] show ?thesis
      by (simp add: and_then_def)
  next
    case (Thrown e)
    with step fr show ?thesis
      by (simp add: and_then_def)
  qed
qed

text \<open>
  C5. \<^verbatim>\<open>loadSeed\<close> runs the load inside a transaction (the one-argument form of
  \<^verbatim>\<open>transaction\<close>), and that transaction is committed like any other: on the fresh
  document, loading the snapshot with the one node \<open>p1\<close> leaves the load's change on
  \<open>done\<close>, through \<^verbatim>\<open>loadSeed\<close> and through \<^verbatim>\<open>fromSnapshot\<close>. \<^verbatim>\<open>documentDidLoad\<close>, which
  empties \<open>done\<close>, is not called on this path.
\<close>

theorem loadSeed_recorded:
  "Document_loadSeed fresh_document \<lparr>nodes = [paragraph_p1]\<rparr> =
     (Returned (),
      fresh_document\<lparr>data := [''p1'' \<mapsto> paragraph_p1],
        stage := Some \<lparr>tx_data = [''p1'' \<mapsto> paragraph_p1], tx_ops = [], tx_before = []\<rparr>,
        done_stack := [\<lparr>ops = [OpCreate paragraph_p1], before = [], after = []\<rparr>],
        emitted := [TransactionStarted,
          DocumentChanged \<lparr>ops = [OpCreate paragraph_p1], before = [], after = []\<rparr> (JObj [])]\<rparr>) \<and>
   Document_fromSnapshot empty_initialize \<lparr>nodes = [paragraph_p1]\<rparr> =
     Document_loadSeed fresh_document \<lparr>nodes = [paragraph_p1]\<rparr>"
  by (simp add: fresh_document_eq empty_initialize_def call_defs)

text \<open>Every load that returns has pushed its change, whatever the document and the snapshot.\<close>

lemma loadSeed_always_recorded:
  assumes "Document_loadSeed d seed = (Returned (), d')"
  shows "butlast (done_stack d') = done_stack d \<and> done_stack d' \<noteq> []"
proof -
  obtain r0 d0 where start: "Document_startTransaction d (Some []) = (r0, d0)"
    by (cases "Document_startTransaction d (Some [])")
  from assms start have r0: "r0 = Returned ()"
    by (cases r0) (auto simp: Document_loadSeed_def Document_transaction_def and_then_def)
  from start r0 have d0: "isTransacting d0" "done_stack d0 = done_stack d"
    by (auto simp: Document_startTransaction_def split: if_splits option.splits)
  obtain r1 d1 where load: "create_all (nodes seed) d0 = (r1, d1)"
    by (cases "create_all (nodes seed) d0")
  from create_all_frame [of "nodes seed" d0] load d0
  have d1: "isTransacting d1" "done_stack d1 = done_stack d"
    by simp_all
  have r1: "r1 = Returned ()"
  proof (cases r1)
    case (Thrown e)
    with assms start r0 load show ?thesis
      by (auto simp: Document_loadSeed_def Document_transaction_def and_then_def try_finally_def
          TransactionDocument_loadSeed_def split: prod.splits outcome.splits)
  qed simp
  from assms start r0 load r1 d1
  have fin: "try_finally (TransactionDocument_save d1 [] (JObj [])) TransactionDocument_finish
      = (Returned (), d')"
    by (simp add: Document_loadSeed_def Document_transaction_def and_then_def
        TransactionDocument_loadSeed_def transaction_afterState_def)
  obtain r3 d3 where save: "TransactionDocument_save d1 [] (JObj []) = (r3, d3)"
    by (cases "TransactionDocument_save d1 [] (JObj [])")
  from try_finally_Returned [OF fin] save
  have "TransactionDocument_save d1 [] (JObj []) = (Returned (), d3)"
    and cl: "TransactionDocument_finish d3 = (Returned (), d')"
    by simp_all
  from save_Returned [OF this(1)] obtain tx :: transaction_document where
    d3: "done_stack d3 = done_stack d1 @ [\<lparr>ops = tx_ops tx, before = tx_before tx, after = []\<rparr>]"
      "\<not> isTransacting d3"
    by auto
  from cl d3 have "d' = d3"
    by (simp add: TransactionDocument_finish_def)
  with d3(1) d1(2) show ?thesis
    by simp
qed

text \<open>\<^verbatim>\<open>documentDidLoad\<close> is what would take the load out of the history.\<close>

lemma documentDidLoad_clears:
  "stage d = Some tx \<Longrightarrow>
   Document_documentDidLoad d =
     (Returned (), d\<lparr>stage := Some (TransactionDocument_reset tx), done_stack := []\<rparr>)"
  by (simp add: Document_documentDidLoad_def)

section \<open>Nested transactions\<close>

text \<open>
  C6. Calling \<^verbatim>\<open>startTransaction\<close> while a transaction is active throws the
  nested-transaction error (\<^verbatim>\<open>Error('Nested transactions are not supported.')\<close>) and
  leaves the whole document as it was: \<open>isTransacting\<close> stays set, and the stage with its
  store, its buffered operations and its before state is untouched.
\<close>

theorem startTransaction_nested:
  "isTransacting d \<Longrightarrow>
   Document_startTransaction d beforeState =
     (Thrown (Error ''Nested transactions are not supported.''), d)"
  by (simp add: Document_startTransaction_def)

theorem startTransaction_nested_witness:
  "isTransacting writing_document \<and>
   Document_startTransaction writing_document (Some [(''selection'', JStr ''sel1'')]) =
     (Thrown (Error ''Nested transactions are not supported.''), writing_document)"
proof -
  have active: "isTransacting writing_document"
    by (simp add: writing_document_eq)
  from active startTransaction_nested [OF active] show ?thesis
    by simp
qed

text \<open>
  The same holds when the nested start comes through \<^verbatim>\<open>transaction\<close>: the start is
  outside the \<^verbatim>\<open>try\<close>, so the \<^verbatim>\<open>finally\<close> block does not cancel the outer transaction.
\<close>

lemma transaction_nested:
  "isTransacting d \<Longrightarrow> arg_transformation args = Some t \<Longrightarrow>
   Document_transaction d args = (Thrown (Error ''Nested transactions are not supported.''), d)"
  by (simp add: Document_transaction_def Document_startTransaction_def and_then_def)

section \<open>Annotation queries\<close>

text \<open>
  C9. For a selection that is not a property selection (a container selection, the null
  selection) \<^verbatim>\<open>getAnnotationsForSelection\<close> returns the empty array, whatever the options
  are, and sends no query to the annotation index.
\<close>

theorem getAnnotationsForSelection_not_property:
  "\<not> isPropertySelection sel \<Longrightarrow>
   Document_getAnnotationsForSelection annotationIndex_get filterByType sel options =
     (Returned [], [])"
  by (cases sel) (simp_all add: Document_getAnnotationsForSelection_def)

theorem getAnnotationsForSelection_not_property_witness:
  "\<not> isPropertySelection (ContainerSelection ''body'' (''p1'', ''content'') 2 (''p2'', ''content'') 3 False) \<and>
   Document_getAnnotationsForSelection (\<lambda>p s e. [''strong1'', ''emphasis1'']) (\<lambda>t a. True)
       (ContainerSelection ''body'' (''p1'', ''content'') 2 (''p2'', ''content'') 3 False)
       (JObj [(''type'', JStr ''strong'')]) =
     (Returned [], [])"
proof -
  let ?sel = "ContainerSelection ''body'' (''p1'', ''content'') 2 (''p2'', ''content'') 3 False"
  have other: "\<not> isPropertySelection ?sel"
    by simp
  from other getAnnotationsForSelection_not_property [OF other] show ?thesis
    by simp
qed

text \<open>For comparison, a property selection does query the index, once.\<close>

lemma getAnnotationsForSelection_property:
  "snd (Document_getAnnotationsForSelection annotationIndex_get filterByType
          (PropertySelection p s e r) options) = [(p, s, e)]"
  by (cases "options_type (if truthy options then options else JObj [])")
     (simp_all add: Document_getAnnotationsForSelection_def Let_def)

text \<open>
  C10. \<^verbatim>\<open>getContainerAnnotationsForSelection\<close> with a missing or otherwise falsy
  container returns the empty array, with and without options. With a container and
  without options (\<^verbatim>\<open>undefined\<close>) it throws a \<^verbatim>\<open>TypeError\<close>: \<^verbatim>\<open>options.type\<close> is read
  without a default.
\<close>

theorem getContainerAnnotationsForSelection_arguments:
  "(\<not> truthy container \<longrightarrow>
      Document_getContainerAnnotationsForSelection typeIndex_get byId overlaps sel container options =
        Returned []) \<and>
   (truthy container \<longrightarrow>
      Document_getContainerAnnotationsForSelection typeIndex_get byId overlaps sel container JUndefined =
        Thrown (TypeError ''Cannot read property type of undefined''))"
  by (simp add: Document_getContainerAnnotationsForSelection_def)

theorem getContainerAnnotationsForSelection_arguments_witness:
  "\<not> truthy JUndefined \<and> truthy (JObj [(''id'', JStr ''body'')]) \<and>
   Document_getContainerAnnotationsForSelection (\<lambda>t. [''highlight1'']) [''highlight1'', ''comment1'']
       (\<lambda>s a. True) NullSelection JUndefined JUndefined = Returned [] \<and>
   Document_getContainerAnnotationsForSelection (\<lambda>t. [''highlight1'']) [''highlight1'', ''comment1'']
       (\<lambda>s a. True) NullSelection (JObj [(''id'', JStr ''body'')]) JUndefined =
     Thrown (TypeError ''Cannot read property type of undefined'')"
proof -
  have falsy: "\<not> truthy JUndefined" and given: "truthy (JObj [(''id'', JStr ''body'')])"
    by simp_all
  from falsy given
    getContainerAnnotationsForSelection_arguments
      [of JUndefined "\<lambda>t. [''highlight1'']" "[''highlight1'', ''comment1'']" "\<lambda>s a. True"
          NullSelection JUndefined]
    getContainerAnnotationsForSelection_arguments
      [of "JObj [(''id'', JStr ''body'')]" "\<lambda>t. [''highlight1'']" "[''highlight1'', ''comment1'']"
          "\<lambda>s a. True" NullSelection]
  show ?thesis
    by simp
qed

end
